theory Spec2Isabelle
  imports Complex_Main "HOL-Library.Option_ord"
begin

section \<open>Values, errors and the future handle\<close>

text \<open>
  Python values as they reach \<^verbatim>\<open>client.py\<close>: decoded JSON (status records, solver
  descriptors) and filter arguments. Numbers are read as reals; a dict with string keys
  is an association list without repeated keys.
\<close>

datatype pyval =
    PNone
  | PBool bool
  | PNum real
  | PStr string
  | PList "pyval list"
  | PTuple "pyval list"
  | PDict "(string \<times> pyval) list"

text \<open>
  The exceptions \<^verbatim>\<open>client.py\<close> raises or catches. \<open>IOError e\<close> is
  \<^verbatim>\<open>IOError(e)\<close>, the wrapper the workers put around a caught exception;
  \<open>OtherError\<close> stands for any further exception of the HTTP session;
  \<open>InvalidAPIResponseError k\<close> is the one whose message says that field \<open>k\<close>
  is missing in the problem description response.
\<close>

datatype error =
    RequestTimeout
  | SolverAuthenticationError
  | HTTPError int
  | ValueError
  | TypeError
  | AttributeError
  | AssertionError
  | StopIteration
  | KeyError pyval
  | SolverFailureError pyval
  | SolverOfflineError pyval
  | InvalidAPIResponseError string
  | CanceledFutureError
  | PollingTimeout
  | OtherError string
  | IOError error

text \<open>
  The fields of a \<^verbatim>\<open>Future\<close> that \<^verbatim>\<open>client.py\<close> reads and writes.
  \<open>local_id\<close> names the object; \<open>future_id\<close> is the attribute \<^verbatim>\<open>id\<close>
  (the remote id, \<open>PNone\<close> until known); \<open>is_done\<close> is what \<^verbatim>\<open>future.done()\<close>
  returns when a worker asks; times are timestamps in seconds.
\<close>

record future =
  local_id :: nat
  future_id :: pyval
  remote_status :: pyval
  cancel_requested :: bool
  cancel_sent :: bool
  poll_backoff :: "int option"
  time_created :: real
  time_received :: "real option"
  time_solved :: "real option"
  eta_min :: "real option"
  eta_max :: "real option"
  is_done :: bool

text \<open>
  What a worker does to objects outside its own frame: the methods of \<^verbatim>\<open>Future\<close>
  it calls and the queue operations, in the order of the calls. A future is named by its
  \<open>local_id\<close>. \<open>SetError n e x\<close> is \<^verbatim>\<open>future._set_error(e, sys.exc_info())\<close>
  where \<open>x\<close> is the exception being handled.
\<close>

datatype action =
    SetError nat error error
  | SetMessage nat pyval
  | SetClockDiff nat
  | CancelPut pyval nat
  | PollPut real nat
  | LoadPut nat
  | SubmissionTaskDone
  | PollTaskDone

section \<open>Class constants\<close>

definition SUBMIT_BATCH_SIZE :: nat where "SUBMIT_BATCH_SIZE = 20"
definition STATUS_QUERY_SIZE :: nat where "STATUS_QUERY_SIZE = 100"
definition POLL_BACKOFF_MIN :: int where "POLL_BACKOFF_MIN = 1"
definition POLL_BACKOFF_MAX :: int where "POLL_BACKOFF_MAX = 60"
definition POLL_GROUP_TIMEFRAME :: real where "POLL_GROUP_TIMEFRAME = 2"

definition STATUS_IN_PROGRESS :: pyval where "STATUS_IN_PROGRESS = PStr ''IN_PROGRESS''"
definition STATUS_PENDING :: pyval where "STATUS_PENDING = PStr ''PENDING''"
definition STATUS_COMPLETE :: pyval where "STATUS_COMPLETE = PStr ''COMPLETED''"
definition STATUS_FAILED :: pyval where "STATUS_FAILED = PStr ''FAILED''"
definition STATUS_CANCELLED :: pyval where "STATUS_CANCELLED = PStr ''CANCELLED''"

definition ANY_STATUS_ONGOING :: "pyval list" where
  "ANY_STATUS_ONGOING = [STATUS_IN_PROGRESS, STATUS_PENDING]"

section \<open>Python's built-in operations on these values\<close>

text \<open>Python's truth value of an object, as \<^verbatim>\<open>if x\<close> and \<^verbatim>\<open>and\<close> test it.\<close>

fun truthy :: "pyval \<Rightarrow> bool" where
  "truthy PNone = False"
| "truthy (PBool b) = b"
| "truthy (PNum x) = (x \<noteq> 0)"
| "truthy (PStr s) = (s \<noteq> [])"
| "truthy (PList xs) = (xs \<noteq> [])"
| "truthy (PTuple xs) = (xs \<noteq> [])"
| "truthy (PDict kvs) = (kvs \<noteq> [])"

text \<open>\<^verbatim>\<open>str.lower()\<close> on ASCII letters, and \<^verbatim>\<open>sub in s\<close> for strings.\<close>

definition lower_char :: "char \<Rightarrow> char" where
  "lower_char c =
     (case map_of (zip ''ABCDEFGHIJKLMNOPQRSTUVWXYZ'' ''abcdefghijklmnopqrstuvwxyz'') c of
        None \<Rightarrow> c
      | Some d \<Rightarrow> d)"

definition lower :: "string \<Rightarrow> string" where
  "lower s = map lower_char s"

fun starts_with :: "'a list \<Rightarrow> 'a list \<Rightarrow> bool" where
  "starts_with [] ys = True"
| "starts_with (x # xs) [] = False"
| "starts_with (x # xs) (y # ys) = (x = y \<and> starts_with xs ys)"

fun str_contains :: "'a list \<Rightarrow> 'a list \<Rightarrow> bool" where
  "str_contains sub [] = (sub = [])"
| "str_contains sub (y # ys) = (starts_with sub (y # ys) \<or> str_contains sub ys)"

text \<open>
  \<^verbatim>\<open>a == b\<close>: a bool is the number 0 or 1, a list equals a list and a tuple a tuple
  item by item, dicts are equal when they have the same keys with equal values.
\<close>

fun num_of :: "pyval \<Rightarrow> real option" where
  "num_of (PBool b) = Some (if b then 1 else 0)"
| "num_of (PNum x) = Some x"
| "num_of v = None"

fun py_eq :: "pyval \<Rightarrow> pyval \<Rightarrow> bool"
and py_eq_list :: "pyval list \<Rightarrow> pyval list \<Rightarrow> bool"
and py_eq_items :: "(string \<times> pyval) list \<Rightarrow> (string \<times> pyval) list \<Rightarrow> bool"
where
  "py_eq PNone b = (b = PNone)"
| "py_eq (PBool x) b = (num_of b = Some (if x then 1 else 0))"
| "py_eq (PNum x) b = (num_of b = Some x)"
| "py_eq (PStr s) b = (b = PStr s)"
| "py_eq (PList xs) b = (case b of PList ys \<Rightarrow> py_eq_list xs ys | _ \<Rightarrow> False)"
| "py_eq (PTuple xs) b = (case b of PTuple ys \<Rightarrow> py_eq_list xs ys | _ \<Rightarrow> False)"
| "py_eq (PDict kvs) b =
     (case b of
        PDict kvs' \<Rightarrow> length kvs = length kvs' \<and> py_eq_items kvs kvs'
      | _ \<Rightarrow> False)"
| "py_eq_list [] ys = (ys = [])"
| "py_eq_list (x # xs) ys =
     (case ys of [] \<Rightarrow> False | y # ys' \<Rightarrow> py_eq x y \<and> py_eq_list xs ys')"
| "py_eq_items [] kvs' = True"
| "py_eq_items ((k, v) # kvs) kvs' =
     (case map_of kvs' k of
        None \<Rightarrow> False
      | Some v' \<Rightarrow> py_eq v v' \<and> py_eq_items kvs kvs')"

text \<open>Whether \<^verbatim>\<open>hash(x)\<close> succeeds: lists and dicts cannot be dict keys or set items.\<close>

fun hashable :: "pyval \<Rightarrow> bool" and hashable_list :: "pyval list \<Rightarrow> bool" where
  "hashable PNone = True"
| "hashable (PBool b) = True"
| "hashable (PNum x) = True"
| "hashable (PStr s) = True"
| "hashable (PList xs) = False"
| "hashable (PTuple xs) = hashable_list xs"
| "hashable (PDict kvs) = False"
| "hashable_list [] = True"
| "hashable_list (x # xs) = (hashable x \<and> hashable_list xs)"

text \<open>
  The order comparisons of Python 3: numbers with numbers, strings with strings by code
  point, lists with lists and tuples with tuples by their first differing items; any
  other pair raises \<^verbatim>\<open>TypeError\<close>.
\<close>

datatype ordering = Below | Same | Above

definition num_cmp :: "real \<Rightarrow> real \<Rightarrow> ordering" where
  "num_cmp x y = (if x < y then Below else if x = y then Same else Above)"

fun str_cmp :: "string \<Rightarrow> string \<Rightarrow> ordering" where
  "str_cmp [] [] = Same"
| "str_cmp [] (y # ys) = Below"
| "str_cmp (x # xs) [] = Above"
| "str_cmp (x # xs) (y # ys) =
     (if (of_char x :: nat) < of_char y then Below
      else if (of_char y :: nat) < of_char x then Above
      else str_cmp xs ys)"

fun py_cmp :: "pyval \<Rightarrow> pyval \<Rightarrow> error + ordering"
and py_cmp_list :: "pyval list \<Rightarrow> pyval list \<Rightarrow> error + ordering"
where
  "py_cmp PNone b = Inl TypeError"
| "py_cmp (PBool x) b =
     (case num_of b of None \<Rightarrow> Inl TypeError | Some y \<Rightarrow> Inr (num_cmp (if x then 1 else 0) y))"
| "py_cmp (PNum x) b =
     (case num_of b of None \<Rightarrow> Inl TypeError | Some y \<Rightarrow> Inr (num_cmp x y))"
| "py_cmp (PStr s) b = (case b of PStr t \<Rightarrow> Inr (str_cmp s t) | _ \<Rightarrow> Inl TypeError)"
| "py_cmp (PList xs) b = (case b of PList ys \<Rightarrow> py_cmp_list xs ys | _ \<Rightarrow> Inl TypeError)"
| "py_cmp (PTuple xs) b = (case b of PTuple ys \<Rightarrow> py_cmp_list xs ys | _ \<Rightarrow> Inl TypeError)"
| "py_cmp (PDict kvs) b = Inl TypeError"
| "py_cmp_list [] ys = Inr (if ys = [] then Same else Below)"
| "py_cmp_list (x # xs) ys =
     (case ys of
        [] \<Rightarrow> Inr Above
      | y # ys' \<Rightarrow> if py_eq x y then py_cmp_list xs ys' else py_cmp x y)"

definition py_lt :: "pyval \<Rightarrow> pyval \<Rightarrow> error + bool" where
  "py_lt a b = (case py_cmp a b of Inl e \<Rightarrow> Inl e | Inr c \<Rightarrow> Inr (c = Below))"

definition py_le :: "pyval \<Rightarrow> pyval \<Rightarrow> error + bool" where
  "py_le a b = (case py_cmp a b of Inl e \<Rightarrow> Inl e | Inr c \<Rightarrow> Inr (c \<noteq> Above))"

definition py_gt :: "pyval \<Rightarrow> pyval \<Rightarrow> error + bool" where
  "py_gt a b = (case py_cmp a b of Inl e \<Rightarrow> Inl e | Inr c \<Rightarrow> Inr (c = Above))"

definition py_ge :: "pyval \<Rightarrow> pyval \<Rightarrow> error + bool" where
  "py_ge a b = (case py_cmp a b of Inl e \<Rightarrow> Inl e | Inr c \<Rightarrow> Inr (c \<noteq> Below))"

text \<open>
  \<^verbatim>\<open>min\<close> and \<^verbatim>\<open>max\<close> of a pair: the second item replaces the first when it is
  strictly smaller (greater).
\<close>

definition py_min2 :: "pyval \<Rightarrow> pyval \<Rightarrow> error + pyval" where
  "py_min2 a b = (case py_lt b a of Inl e \<Rightarrow> Inl e | Inr r \<Rightarrow> Inr (if r then b else a))"

definition py_max2 :: "pyval \<Rightarrow> pyval \<Rightarrow> error + pyval" where
  "py_max2 a b = (case py_gt b a of Inl e \<Rightarrow> Inl e | Inr r \<Rightarrow> Inr (if r then b else a))"

text \<open>\<^verbatim>\<open>a and b\<close> on two tests that may raise: \<open>b\<close> is not run when \<open>a\<close> is false.\<close>

definition and_then :: "error + bool \<Rightarrow> error + bool \<Rightarrow> error + bool" where
  "and_then a b = (case a of Inl e \<Rightarrow> Inl e | Inr r \<Rightarrow> if r then b else Inr False)"

text \<open>Iterating over a value: the items of a list or tuple, the characters of a string,
  the keys of a dict.\<close>

fun py_iter :: "pyval \<Rightarrow> error + pyval list" where
  "py_iter (PList xs) = Inr xs"
| "py_iter (PTuple xs) = Inr xs"
| "py_iter (PStr s) = Inr (map (\<lambda>c. PStr [c]) s)"
| "py_iter (PDict kvs) = Inr (map (\<lambda>kv. PStr (fst kv)) kvs)"
| "py_iter v = Inl TypeError"

text \<open>\<^verbatim>\<open>x in container\<close>.\<close>

fun py_in :: "pyval \<Rightarrow> pyval \<Rightarrow> error + bool" where
  "py_in x (PList ys) = Inr (list_ex (py_eq x) ys)"
| "py_in x (PTuple ys) = Inr (list_ex (py_eq x) ys)"
| "py_in x (PStr s) = (case x of PStr sub \<Rightarrow> Inr (str_contains sub s) | _ \<Rightarrow> Inl TypeError)"
| "py_in x (PDict kvs) =
     (if hashable x then Inr (list_ex (\<lambda>kv. py_eq x (PStr (fst kv))) kvs) else Inl TypeError)"
| "py_in x v = Inl TypeError"

section \<open>Scheduling a poll: \<^verbatim>\<open>Client._poll\<close>\<close>

text \<open>
  The client's settings and the clock a call reads: \<open>polling_timeout\<close> is the
  configured value (\<open>None\<close> when unset), \<open>time_time\<close> is \<^verbatim>\<open>time.time()\<close>,
  \<open>utcnow\<close> is \<^verbatim>\<open>utcnow()\<close> as a timestamp, and \<open>parse_datetime\<close> is the
  date parser of \<^verbatim>\<open>dateutil\<close>, which may raise.
\<close>

record env =
  polling_timeout :: "real option"
  time_time :: real
  utcnow :: real
  parse_datetime :: "pyval \<Rightarrow> error + real"

text \<open>The new back-off, from the old one.\<close>

definition next_backoff :: "int option \<Rightarrow> int" where
  "next_backoff b =
     (case b of
        None \<Rightarrow> POLL_BACKOFF_MIN
      | Some p \<Rightarrow> max POLL_BACKOFF_MIN (min (p * 2) POLL_BACKOFF_MAX))"

text \<open>
  The age the future will have at its next poll, as \<^verbatim>\<open>_poll\<close> computes it from the two
  clocks, and the test that aborts polling.
\<close>

definition future_age_on_next_poll :: "env \<Rightarrow> future \<Rightarrow> real" where
  "future_age_on_next_poll E future =
     (let at_time = time_time E + real_of_int (next_backoff (poll_backoff future));
          now = utcnow E;
          future_age = now - time_created future
      in future_age + (at_time - now))"

definition polling_timeout_exceeded :: "env \<Rightarrow> future \<Rightarrow> bool" where
  "polling_timeout_exceeded E future =
     (case polling_timeout E of
        None \<Rightarrow> False
      | Some limit \<Rightarrow> future_age_on_next_poll E future > limit)"

text \<open>
  \<^verbatim>\<open>_poll(future)\<close>: the back-off is stored in the future first; then either
  \<^verbatim>\<open>PollingTimeout\<close> is raised (the first component is the exception) or the
  future is put on the poll queue with its scheduled time.
\<close>

definition poll :: "env \<Rightarrow> future \<Rightarrow> error option \<times> future \<times> action list" where
  "poll E future =
     (let future1 = future\<lparr>poll_backoff := Some (next_backoff (poll_backoff future))\<rparr>;
          at_time = time_time E + real_of_int (next_backoff (poll_backoff future))
      in if polling_timeout_exceeded E future
         then (Some PollingTimeout, future1, [])
         else (None, future1, [PollPut at_time (local_id future1)]))"

text \<open>The state of a future after a series of \<^verbatim>\<open>_poll\<close> calls, one per element.\<close>

fun polls :: "env list \<Rightarrow> future \<Rightarrow> future" where
  "polls [] future = future"
| "polls (E # Es) future = polls Es (fst (snd (poll E future)))"

section \<open>The status dispatcher: \<^verbatim>\<open>Client._handle_problem_status\<close>\<close>

text \<open>
  The checks at the head of the \<^verbatim>\<open>try\<close> block: the exception raised, or the record
  with its id and status. A message that is not a dict has no \<^verbatim>\<open>get\<close>.
\<close>

definition check_message :: "pyval \<Rightarrow> error + ((string \<times> pyval) list \<times> pyval \<times> pyval)" where
  "check_message message =
     (case message of
        PDict m \<Rightarrow>
          (case (map_of m ''error_code'', map_of m ''error_msg'') of
             (Some code, Some msg) \<Rightarrow> Inl (SolverFailureError msg)
           | _ \<Rightarrow>
          (case map_of m ''status'' of
             None \<Rightarrow> Inl (InvalidAPIResponseError ''status'')
           | Some status \<Rightarrow>
          (case map_of m ''id'' of
             None \<Rightarrow> Inl (InvalidAPIResponseError ''id'')
           | Some message_id \<Rightarrow> Inr (m, message_id, status))))
      | _ \<Rightarrow> Inl AttributeError)"

text \<open>
  The block under \<^verbatim>\<open>future._single_cancel_lock\<close>: a cancel asked for before the
  remote id was known is put on the cancel queue now, if none was sent and the problem
  is still pending; \<^verbatim>\<open>_cancel_sent\<close> is set whenever a cancel was asked for.
\<close>

definition cancel_section :: "pyval \<Rightarrow> pyval \<Rightarrow> future \<Rightarrow> future \<times> action list" where
  "cancel_section message_id status future =
     (if cancel_requested future
      then (future\<lparr>cancel_sent := True\<rparr>,
            if \<not> cancel_sent future \<and> status = STATUS_PENDING
            then [CancelPut message_id (local_id future)] else [])
      else (future, []))"

text \<open>
  One of the four timing fields: it is parsed from the record when the future has none
  yet and the record's value is truthy. The parser may raise.
\<close>

definition set_time :: "env \<Rightarrow> real option \<Rightarrow> pyval option \<Rightarrow> error + real option" where
  "set_time E current v =
     (case v of
        None \<Rightarrow> Inr current
      | Some x \<Rightarrow>
          if current = None \<and> truthy x
          then (case parse_datetime E x of Inl e \<Rightarrow> Inl e | Inr t \<Rightarrow> Inr (Some t))
          else Inr current)"

definition update_times ::
  "env \<Rightarrow> (string \<times> pyval) list \<Rightarrow> future \<Rightarrow> error option \<times> future" where
  "update_times E m f0 =
     (case set_time E (time_received f0) (map_of m ''submitted_on'') of
        Inl e \<Rightarrow> (Some e, f0)
      | Inr t1 \<Rightarrow>
     (let f1 = f0\<lparr>time_received := t1\<rparr> in
      case set_time E (time_solved f1) (map_of m ''solved_on'') of
        Inl e \<Rightarrow> (Some e, f1)
      | Inr t2 \<Rightarrow>
     (let f2 = f1\<lparr>time_solved := t2\<rparr> in
      case set_time E (eta_min f2) (map_of m ''earliest_estimated_completion'') of
        Inl e \<Rightarrow> (Some e, f2)
      | Inr t3 \<Rightarrow>
     (let f3 = f2\<lparr>eta_min := t3\<rparr> in
      case set_time E (eta_max f3) (map_of m ''latest_estimated_completion'') of
        Inl e \<Rightarrow> (Some e, f3)
      | Inr t4 \<Rightarrow> (None, f3\<lparr>eta_max := t4\<rparr>)))))"

text \<open>The routing on the status, the last part of the \<^verbatim>\<open>try\<close> block.\<close>

definition route ::
  "env \<Rightarrow> (string \<times> pyval) list \<Rightarrow> pyval \<Rightarrow> future
     \<Rightarrow> error option \<times> future \<times> action list" where
  "route E m status future =
     (if status = STATUS_COMPLETE then
        (if map_of m ''answer'' \<noteq> None
         then (None, future, [SetMessage (local_id future) (PDict m)])
         else (None, future, [LoadPut (local_id future)]))
      else if status \<in> set ANY_STATUS_ONGOING then poll E future
      else if status = STATUS_CANCELLED then (Some CanceledFutureError, future, [])
      else
        (case (case map_of m ''error_message'' of
                 None \<Rightarrow> PStr ''An unknown error has occurred.''
               | Some v \<Rightarrow> v) of
           PStr errmsg \<Rightarrow>
             if str_contains ''solver is offline'' (lower errmsg)
             then (Some (SolverOfflineError (PStr errmsg)), future, [])
             else (Some (SolverFailureError (PStr errmsg)), future, [])
         | _ \<Rightarrow> (Some AttributeError, future, [])))"

text \<open>
  The \<^verbatim>\<open>try\<close> block from the \<^verbatim>\<open>with future._single_cancel_lock\<close> statement on,
  for a future that already carries the record's id and status.
\<close>

definition handle_from_lock ::
  "env \<Rightarrow> (string \<times> pyval) list \<Rightarrow> pyval \<Rightarrow> pyval \<Rightarrow> future
     \<Rightarrow> error option \<times> future \<times> action list" where
  "handle_from_lock E m message_id status future1 =
     (let (future2, cancels) = cancel_section message_id status future1
      in case update_times E m future2 of
           (Some e, future3) \<Rightarrow> (Some e, future3, cancels)
         | (None, future3) \<Rightarrow>
             (case route E m status future3 of
                (err, future4, acts) \<Rightarrow> (err, future4, cancels @ acts)))"

text \<open>
  The whole \<^verbatim>\<open>try\<close> block: the exception it ends with (if any), the future as the
  block leaves it, and the calls made.
\<close>

definition handle_problem_status_try ::
  "env \<Rightarrow> pyval \<Rightarrow> future \<Rightarrow> error option \<times> future \<times> action list" where
  "handle_problem_status_try E message future =
     (case check_message message of
        Inl e \<Rightarrow> (Some e, future, [])
      | Inr (m, message_id, status) \<Rightarrow>
          handle_from_lock E m message_id status
            (future\<lparr>future_id := message_id, remote_status := status\<rparr>))"

text \<open>
  The \<^verbatim>\<open>except Exception as error\<close> clause: any exception of the block settles the
  future through \<^verbatim>\<open>_set_error\<close>.
\<close>

definition settle_on_error :: "error option \<times> future \<times> action list \<Rightarrow> future \<times> action list" where
  "settle_on_error r =
     (case r of
        (None, future, acts) \<Rightarrow> (future, acts)
      | (Some e, future, acts) \<Rightarrow> (future, acts @ [SetError (local_id future) e e]))"

definition handle_problem_status :: "env \<Rightarrow> pyval \<Rightarrow> future \<Rightarrow> future \<times> action list" where
  "handle_problem_status E message future =
     settle_on_error (handle_problem_status_try E message future)"

section \<open>The cancel protocol\<close>

text \<open>
  Modelled from the spec: \<^verbatim>\<open>Future.cancel()\<close>, which lives outside \<^verbatim>\<open>client.py\<close>.
  The second call is a no-op. The first call records the request; when the remote id is
  known and the status is pending it puts the cancel on the cancel queue itself and
  records that it was sent, otherwise it defers to the dispatcher.
\<close>

definition cancel :: "future \<Rightarrow> future \<times> action list" where
  "cancel future =
     (if cancel_requested future then (future, [])
      else if future_id future \<noteq> PNone \<and> remote_status future = STATUS_PENDING
      then (future\<lparr>cancel_requested := True, cancel_sent := True\<rparr>,
            [CancelPut (future_id future) (local_id future)])
      else (future\<lparr>cancel_requested := True\<rparr>, []))"

text \<open>
  Modelled from the spec: a future as it is created for a submitted problem, with no
  remote id, no status, no back-off and no cancel asked for.
\<close>

definition new_future :: "nat \<Rightarrow> real \<Rightarrow> future" where
  "new_future n created =
     \<lparr>local_id = n, future_id = PNone, remote_status = PNone,
      cancel_requested = False, cancel_sent = False, poll_backoff = None,
      time_created = created, time_received = None, time_solved = None,
      eta_min = None, eta_max = None, is_done = False\<rparr>"

text \<open>
  What happens to one future, step by step: the user calls \<^verbatim>\<open>cancel()\<close>, a worker
  dispatches a status record, or a worker dispatches a record while the user's
  \<^verbatim>\<open>cancel()\<close> runs after the id was assigned and before the lock is taken. The lock
  makes \<^verbatim>\<open>cancel()\<close> and the dispatcher's locked block exclude each other, so these
  are all the orders in which the two can touch the flags.
\<close>

datatype event =
    UserCancel
  | Dispatch env pyval
  | DispatchWithCancel env pyval

definition step :: "event \<Rightarrow> future \<Rightarrow> future \<times> action list" where
  "step ev future =
     (case ev of
        UserCancel \<Rightarrow> cancel future
      | Dispatch E message \<Rightarrow> handle_problem_status E message future
      | DispatchWithCancel E message \<Rightarrow>
          settle_on_error
            (case check_message message of
               Inl e \<Rightarrow> (Some e, future, [])
             | Inr (m, message_id, status) \<Rightarrow>
                 (let (future1, acts1) =
                        cancel (future\<lparr>future_id := message_id, remote_status := status\<rparr>)
                  in case handle_from_lock E m message_id status future1 of
                       (err, future2, acts2) \<Rightarrow> (err, future2, acts1 @ acts2))))"

fun run :: "event list \<Rightarrow> future \<Rightarrow> future \<times> action list" where
  "run [] future = (future, [])"
| "run (ev # evs) future =
     (case step ev future of
        (future1, acts1) \<Rightarrow>
          (case run evs future1 of (future2, acts2) \<Rightarrow> (future2, acts1 @ acts2)))"

text \<open>The cancel requests among a list of calls: the puts on the cancel queue.\<close>

fun is_cancel_put :: "action \<Rightarrow> bool" where
  "is_cancel_put (CancelPut i n) = True"
| "is_cancel_put a = False"

definition cancel_puts :: "action list \<Rightarrow> nat" where
  "cancel_puts acts = length (filter is_cancel_put acts)"

section \<open>The poll worker: \<^verbatim>\<open>Client._do_poll_problems\<close>\<close>

text \<open>
  The poll queue is a priority queue of tasks \<^verbatim>\<open>(at, future)\<close>, the future being
  \<^verbatim>\<open>None\<close> in the termination task. \<open>pq_get\<close> takes the task with the least time out
  of the queue (the earliest put among equal times); it is \<open>None\<close> on an empty queue.
\<close>

type_synonym task = "real \<times> future option"

fun pq_get :: "task list \<Rightarrow> (task \<times> task list) option" where
  "pq_get [] = None"
| "pq_get (x # xs) =
     (case pq_get xs of
        None \<Rightarrow> Some (x, [])
      | Some (y, ys) \<Rightarrow> if fst x \<le> fst y then Some (x, xs) else Some (y, x # ys))"

definition pq_put :: "task \<Rightarrow> task list \<Rightarrow> task list" where
  "pq_put t q = q @ [t]"

text \<open>
  \<^verbatim>\<open>frame_futures\<close>, the dict from remote id to future, in insertion order.
  Looking a key up hashes it first.
\<close>

type_synonym frame = "(pyval \<times> future) list"

definition frame_has :: "pyval \<Rightarrow> frame \<Rightarrow> bool" where
  "frame_has key frame = list_ex (\<lambda>kf. py_eq (fst kf) key) frame"

definition frame_get :: "pyval \<Rightarrow> frame \<Rightarrow> error + future" where
  "frame_get key frame =
     (if \<not> hashable key then Inl TypeError
      else case find (\<lambda>kf. py_eq (fst kf) key) frame of
             None \<Rightarrow> Inl (KeyError key)
           | Some kf \<Rightarrow> Inr (snd kf))"

text \<open>The future stored under a key, after the worker changed it in place.\<close>

definition frame_update :: "pyval \<Rightarrow> future \<Rightarrow> frame \<Rightarrow> frame" where
  "frame_update key future frame =
     map (\<lambda>kf. if py_eq (fst kf) key then (fst kf, future) else kf) frame"

text \<open>
  The local function \<^verbatim>\<open>add(future)\<close>: the exception of an unhashable id, or whether
  the worker lives on, the frame and the \<^verbatim>\<open>task_done\<close> calls.
\<close>

definition add :: "future option \<Rightarrow> frame \<Rightarrow> error + (bool \<times> frame \<times> action list)" where
  "add fo frame =
     (case fo of
        None \<Rightarrow> Inr (False, frame, [PollTaskDone])
      | Some future \<Rightarrow>
          if \<not> hashable (future_id future) then Inl TypeError
          else if \<not> frame_has (future_id future) frame \<and> \<not> is_done future
          then Inr (True, frame @ [(future_id future, future)], [])
          else Inr (True, frame, [PollTaskDone]))"

text \<open>
  How one round of the worker's loop ends before the request: waiting on an empty queue,
  the worker's return on the termination task, an exception that ends the worker, or a
  frame with its earliest time, the queue left and the calls made.
\<close>

datatype frame_result =
    WorkerBlocked
  | WorkerExit "action list"
  | WorkerCrash error
  | Frame real frame "task list" "action list"

lemma pq_get_length: "pq_get q = Some (t, q') \<Longrightarrow> length q' < length q"
  by (induction q arbitrary: t q') (auto split: option.splits if_splits)

text \<open>The grouping loop \<^verbatim>\<open>while len(frame_futures) < self._STATUS_QUERY_SIZE\<close>.\<close>

function group :: "real \<Rightarrow> frame \<Rightarrow> task list \<Rightarrow> action list \<Rightarrow> frame_result" where
  "group frame_earliest frame q acts =
     (if length frame < STATUS_QUERY_SIZE then
        (case pq_get q of
           None \<Rightarrow> Frame frame_earliest frame q acts
         | Some (task, q') \<Rightarrow>
             if fst task - frame_earliest \<le> POLL_GROUP_TIMEFRAME then
               (case add (snd task) frame of
                  Inl e \<Rightarrow> WorkerCrash e
                | Inr (alive, frame', dones) \<Rightarrow>
                    if alive then group frame_earliest frame' q' (acts @ dones)
                    else WorkerExit (acts @ dones))
             else Frame frame_earliest frame (pq_put task q') (acts @ [PollTaskDone]))
      else Frame frame_earliest frame q acts)"
  by pat_completeness auto
termination
  by (relation "measure (\<lambda>(frame_earliest, frame, q, acts). length q)")
     (auto dest: pq_get_length)

text \<open>One round up to the request: the blocking get, the first \<^verbatim>\<open>add\<close>, the grouping.\<close>

definition build_frame :: "task list \<Rightarrow> frame_result" where
  "build_frame q =
     (case pq_get q of
        None \<Rightarrow> WorkerBlocked
      | Some (task, q') \<Rightarrow>
          (case add (snd task) [] of
             Inl e \<Rightarrow> WorkerCrash e
           | Inr (alive, frame, dones) \<Rightarrow>
               if alive then group (fst task) frame q' dones else WorkerExit dones))"

text \<open>\<^verbatim>\<open>ids = [future.id for future in frame_futures.values()]\<close>, the ids the GET asks for.\<close>

definition frame_ids :: "frame \<Rightarrow> pyval list" where
  "frame_ids frame = map (\<lambda>kf. future_id (snd kf)) frame"

text \<open>No two items of a list are equal for Python.\<close>

fun py_distinct :: "pyval list \<Rightarrow> bool" where
  "py_distinct [] = True"
| "py_distinct (x # xs) = (\<not> list_ex (py_eq x) xs \<and> py_distinct xs)"

text \<open>
  What the HTTP session gives back: a timeout, another exception, or a response with its
  status code and what \<^verbatim>\<open>response.json()\<close> returns or raises.
  \<^verbatim>\<open>raise_for_status\<close> is the one of \<^verbatim>\<open>requests\<close>.
\<close>

datatype http_result =
    HTTPTimeout
  | HTTPRaises error
  | HTTPResponse int "error + pyval"

definition raise_for_status :: "int \<Rightarrow> error option" where
  "raise_for_status status_code =
     (if 400 \<le> status_code \<and> status_code < 600 then Some (HTTPError status_code) else None)"

text \<open>
  The loop of the 5xx branch, \<^verbatim>\<open>for future in frame_futures.values(): self._poll(future)\<close>.
  It stops at the first exception. \<open>E k\<close> is what call number \<open>k\<close> reads.
\<close>

fun poll_all :: "(nat \<Rightarrow> env) \<Rightarrow> nat \<Rightarrow> frame \<Rightarrow> error option \<times> frame \<times> action list" where
  "poll_all E k [] = (None, [], [])"
| "poll_all E k (kf # rest) =
     (case poll (E k) (snd kf) of
        (Some e, future', acts) \<Rightarrow> (Some e, (fst kf, future') # rest, acts)
      | (None, future', acts) \<Rightarrow>
          (case poll_all E (Suc k) rest of
             (err, rest', acts') \<Rightarrow> (err, (fst kf, future') # rest', acts @ acts')))"

text \<open>\<^verbatim>\<open>status['id']\<close> on an item of the reply.\<close>

definition subscript_id :: "pyval \<Rightarrow> error + pyval" where
  "subscript_id status =
     (case status of
        PDict m \<Rightarrow> (case map_of m ''id'' of None \<Rightarrow> Inl (KeyError (PStr ''id'')) | Some v \<Rightarrow> Inr v)
      | _ \<Rightarrow> Inl TypeError)"

text \<open>The loop over the statuses of a successful reply.\<close>

fun handle_statuses ::
  "(nat \<Rightarrow> env) \<Rightarrow> nat \<Rightarrow> pyval list \<Rightarrow> frame \<Rightarrow> error option \<times> frame \<times> action list" where
  "handle_statuses E k [] frame = (None, frame, [])"
| "handle_statuses E k (status # rest) frame =
     (case subscript_id status of
        Inl e \<Rightarrow> (Some e, frame, [])
      | Inr key \<Rightarrow>
          (case frame_get key frame of
             Inl e \<Rightarrow> (Some e, frame, [])
           | Inr future \<Rightarrow>
               (case handle_problem_status (E k) status future of
                  (future', acts) \<Rightarrow>
                    (case handle_statuses E (Suc k) rest (frame_update key future' frame) of
                       (err, frame', acts') \<Rightarrow> (err, frame', acts @ acts')))))"

text \<open>The \<^verbatim>\<open>try\<close> block around the poll request.\<close>

definition poll_request_try ::
  "(nat \<Rightarrow> env) \<Rightarrow> http_result \<Rightarrow> frame \<Rightarrow> error option \<times> frame \<times> action list" where
  "poll_request_try E response frame =
     (case response of
        HTTPTimeout \<Rightarrow> (Some RequestTimeout, frame, [])
      | HTTPRaises e \<Rightarrow> (Some e, frame, [])
      | HTTPResponse status_code json \<Rightarrow>
          if status_code = 401 then (Some SolverAuthenticationError, frame, [])
          else if 500 \<le> status_code \<and> status_code < 600 then poll_all E 0 frame
          else
            (case raise_for_status status_code of
               Some e \<Rightarrow> (Some e, frame, [])
             | None \<Rightarrow>
                 (case json of
                    Inl e \<Rightarrow> (Some e, frame, [])
                  | Inr v \<Rightarrow>
                      (case py_iter v of
                         Inl e \<Rightarrow> (Some e, frame, [])
                       | Inr statuses \<Rightarrow> handle_statuses E 0 statuses frame))))"

text \<open>
  The request and what follows it in one round: the \<^verbatim>\<open>except BaseException\<close> clause
  settles every future of the frame with the wrapped exception, and every key of the
  frame is marked done on the queue.
\<close>

definition poll_request :: "(nat \<Rightarrow> env) \<Rightarrow> http_result \<Rightarrow> frame \<Rightarrow> frame \<times> action list" where
  "poll_request E response frame =
     (case poll_request_try E response frame of
        (None, frame', acts) \<Rightarrow> (frame', acts @ map (\<lambda>kf. PollTaskDone) frame')
      | (Some exc, frame', acts) \<Rightarrow>
          (let exception = (if exc = SolverAuthenticationError then exc else IOError exc)
           in (frame',
               acts @ map (\<lambda>kf. SetError (local_id (snd kf)) (IOError exception) exc) frame'
                    @ map (\<lambda>kf. PollTaskDone) frame')))"

text \<open>Whether a list of calls settles the future \<open>n\<close>, and whether it puts it on the poll queue.\<close>

fun settles :: "nat \<Rightarrow> action \<Rightarrow> bool" where
  "settles n (SetError m e x) = (m = n)"
| "settles n (SetMessage m v) = (m = n)"
| "settles n a = False"

fun puts_on_poll_queue :: "nat \<Rightarrow> action \<Rightarrow> bool" where
  "puts_on_poll_queue n (PollPut t m) = (m = n)"
| "puts_on_poll_queue n a = False"

section \<open>The submission worker: \<^verbatim>\<open>Client._do_submit_problems\<close>\<close>

text \<open>An item of the submission queue, \<^verbatim>\<open>Message(body, future)\<close>; the termination
  task is \<^verbatim>\<open>None\<close>.\<close>

record submission =
  body :: string
  sub_future :: future

text \<open>
  The loop \<^verbatim>\<open>while len(ready_problems) < self._SUBMIT_BATCH_SIZE\<close> on a FIFO queue:
  the batch and the queue left.
\<close>

fun drain :: "'a list \<Rightarrow> 'a list \<Rightarrow> 'a list \<times> 'a list" where
  "drain ready_problems [] = (ready_problems, [])"
| "drain ready_problems (x # q) =
     (if length ready_problems < SUBMIT_BATCH_SIZE
      then drain (ready_problems @ [x]) q
      else (ready_problems, x # q))"

text \<open>
  The start of a round: the blocking get (\<open>None\<close> of the outer option: the worker waits),
  the return on the termination task (\<open>Inl\<close>), or the batch and the queue left.
\<close>

definition take_batch ::
  "submission option list
     \<Rightarrow> (unit + submission option list \<times> submission option list) option" where
  "take_batch q =
     (case q of
        [] \<Rightarrow> None
      | item # rest \<Rightarrow>
          (case item of
             None \<Rightarrow> Some (Inl ())
           | Some m \<Rightarrow> Some (Inr (drain [item] rest))))"

text \<open>\<^verbatim>\<open>sep.join(parts)\<close> and the body of the POST.\<close>

fun join :: "string \<Rightarrow> string list \<Rightarrow> string" where
  "join sep [] = []"
| "join sep [x] = x"
| "join sep (x # y # ys) = x @ sep @ join sep (y # ys)"

definition request_body :: "submission option list \<Rightarrow> error + string" where
  "request_body ready_problems =
     (if list_ex (\<lambda>mess. mess = None) ready_problems then Inl AttributeError
      else Inr (''['' @ join '','' (map body (List.map_filter id ready_problems)) @ '']''))"

text \<open>The loop \<^verbatim>\<open>for submission, res in zip(ready_problems, message)\<close>.\<close>

fun pass_on ::
  "(nat \<Rightarrow> env) \<Rightarrow> nat \<Rightarrow> submission list \<Rightarrow> pyval list \<Rightarrow> submission list \<times> action list" where
  "pass_on E k [] rs = ([], [])"
| "pass_on E k (submission # rest) [] = (submission # rest, [])"
| "pass_on E k (submission # rest) (res # rs) =
     (case handle_problem_status (E k) res (sub_future submission) of
        (future', acts) \<Rightarrow>
          (case pass_on E (Suc k) rest rs of
             (rest', acts') \<Rightarrow>
               (submission\<lparr>sub_future := future'\<rparr> # rest',
                [SetClockDiff (local_id (sub_future submission))] @ acts
                  @ [SubmissionTaskDone] @ acts')))"

text \<open>
  One batch from the POST on: an exception that ends the worker, or the batch with its
  futures as the round leaves them and the calls made. A failed request settles every
  member with the exception, wrapped in \<^verbatim>\<open>IOError\<close> unless it is the authentication
  error.
\<close>

definition submit_batch ::
  "(nat \<Rightarrow> env) \<Rightarrow> http_result \<Rightarrow> submission option list
     \<Rightarrow> error + (submission list \<times> action list)" where
  "submit_batch E response ready_problems =
     (case request_body ready_problems of
        Inl e \<Rightarrow> Inl e
      | Inr body_text \<Rightarrow>
     (let batch = List.map_filter id ready_problems;
          failed = (\<lambda>exc.
            (let exception = (if exc = SolverAuthenticationError then exc else IOError exc)
             in Inr (batch,
                     concat (map (\<lambda>mess.
                       [SetError (local_id (sub_future mess)) exception exc,
                        SubmissionTaskDone]) batch))))
      in case response of
           HTTPTimeout \<Rightarrow> failed RequestTimeout
         | HTTPRaises e \<Rightarrow> failed e
         | HTTPResponse status_code json \<Rightarrow>
             if status_code = 401 then failed SolverAuthenticationError
             else
               (case raise_for_status status_code of
                  Some e \<Rightarrow> failed e
                | None \<Rightarrow>
                    (case json of
                       Inl e \<Rightarrow> failed e
                     | Inr message \<Rightarrow>
                         (case py_iter message of
                            Inl e \<Rightarrow> Inl e
                          | Inr rs \<Rightarrow> Inr (pass_on E 0 batch rs))))))"

section \<open>The solver query: \<^verbatim>\<open>Client.get_solvers\<close>\<close>

text \<open>
  A solver as the filters see it: the derived properties with the values of the
  attributes of these names, and the two dicts of the descriptor.
\<close>

record solver =
  derived_properties :: "(string \<times> pyval) list"
  parameters :: pyval
  properties :: pyval

text \<open>
  The two library functions the filters call: \<open>re_match val prop\<close> is the truth value of
  \<^verbatim>\<open>re.match("^{}$".format(val), prop)\<close> on a string \<open>prop\<close> (or what it raises),
  and \<open>pluck obj path\<close> is \<^verbatim>\<open>pluck(obj, path, None)\<close> of \<^verbatim>\<open>plucky\<close>.
\<close>

record lib =
  re_match :: "pyval \<Rightarrow> string \<Rightarrow> error + bool"
  pluck :: "pyval \<Rightarrow> string \<Rightarrow> pyval"

text \<open>The items of a list or tuple, for \<^verbatim>\<open>isinstance(x, (list, tuple))\<close>.\<close>

fun seq_items :: "pyval \<Rightarrow> pyval list option" where
  "seq_items (PList xs) = Some xs"
| "seq_items (PTuple xs) = Some xs"
| "seq_items v = None"

text \<open>\<^verbatim>\<open>covers_op(prop, val)\<close>: does the range \<open>prop\<close> cover the range or item \<open>val\<close>?\<close>

definition covers_op :: "pyval \<Rightarrow> pyval \<Rightarrow> error + bool" where
  "covers_op prop val =
     (case seq_items prop of
        Some [p1, p2] \<Rightarrow>
          (case py_min2 p1 p2 of Inl e \<Rightarrow> Inl e | Inr llo \<Rightarrow>
          (case py_max2 p1 p2 of Inl e \<Rightarrow> Inl e | Inr lhi \<Rightarrow>
          (case seq_items val of
             Some [v1, v2] \<Rightarrow>
               (case py_min2 v1 v2 of Inl e \<Rightarrow> Inl e | Inr rlo \<Rightarrow>
               (case py_max2 v1 v2 of Inl e \<Rightarrow> Inl e | Inr rhi \<Rightarrow>
                  and_then (py_le llo rlo) (py_ge lhi rhi)))
           | _ \<Rightarrow> and_then (py_le llo val) (py_le val lhi))))
      | _ \<Rightarrow> Inl ValueError)"

text \<open>\<^verbatim>\<open>within_op(prop, val)\<close>; its \<^verbatim>\<open>ValueError\<close> only has another message.\<close>

definition within_op :: "pyval \<Rightarrow> pyval \<Rightarrow> error + bool" where
  "within_op prop val =
     (case covers_op val prop of
        Inl e \<Rightarrow> (if e = ValueError then Inl ValueError else Inl e)
      | Inr r \<Rightarrow> Inr r)"

text \<open>
  \<^verbatim>\<open>_set(iterable)\<close>: the items as a set (a list here), lists among them turned into
  tuples when the first item is a list. The first item of an empty iterable does not exist.
\<close>

fun to_tuples :: "pyval list \<Rightarrow> error + pyval list" where
  "to_tuples [] = Inr []"
| "to_tuples (x # xs) =
     (case py_iter x of
        Inl e \<Rightarrow> Inl e
      | Inr items \<Rightarrow>
          if \<not> hashable_list items then Inl TypeError
          else (case to_tuples xs of Inl e \<Rightarrow> Inl e | Inr ts \<Rightarrow> Inr (PTuple items # ts)))"

definition set_of :: "pyval \<Rightarrow> error + pyval list" where
  "set_of iterable =
     (case py_iter iterable of
        Inl e \<Rightarrow> Inl e
      | Inr [] \<Rightarrow> Inl StopIteration
      | Inr (first # rest) \<Rightarrow>
          (case first of
             PList items \<Rightarrow> to_tuples (first # rest)
           | _ \<Rightarrow> if hashable_list (first # rest) then Inr (first # rest) else Inl TypeError))"

definition issubset :: "pyval list \<Rightarrow> pyval list \<Rightarrow> bool" where
  "issubset A B = list_all (\<lambda>a. list_ex (py_eq a) B) A"

definition issubset_op :: "pyval \<Rightarrow> pyval \<Rightarrow> error + bool" where
  "issubset_op prop val =
     (case set_of prop of Inl e \<Rightarrow> Inl e | Inr A \<Rightarrow>
     (case set_of val of Inl e \<Rightarrow> Inl e | Inr B \<Rightarrow> Inr (issubset A B)))"

definition issuperset_op :: "pyval \<Rightarrow> pyval \<Rightarrow> error + bool" where
  "issuperset_op prop val =
     (case set_of prop of Inl e \<Rightarrow> Inl e | Inr A \<Rightarrow>
     (case set_of val of Inl e \<Rightarrow> Inl e | Inr B \<Rightarrow> Inr (issubset B A)))"

definition regex_op :: "lib \<Rightarrow> pyval \<Rightarrow> pyval \<Rightarrow> error + bool" where
  "regex_op L prop val = (case prop of PStr s \<Rightarrow> re_match L val s | _ \<Rightarrow> Inl TypeError)"

text \<open>The decorator \<^verbatim>\<open>with_valid_lhs\<close>: no test holds of a missing left-hand side.\<close>

definition with_valid_lhs ::
  "(pyval \<Rightarrow> pyval \<Rightarrow> error + bool) \<Rightarrow> pyval \<Rightarrow> pyval \<Rightarrow> error + bool" where
  "with_valid_lhs op prop val = (if prop = PNone then Inr False else op prop val)"

text \<open>
  The table \<^verbatim>\<open>ops\<close> of filtering operators. An operator gives the truth value of what
  the Python function returns, or the exception.
\<close>

definition ops :: "lib \<Rightarrow> (string \<times> (pyval \<Rightarrow> pyval \<Rightarrow> error + bool)) list" where
  "ops L =
     [(''lt'', with_valid_lhs py_lt),
      (''lte'', with_valid_lhs py_le),
      (''gt'', with_valid_lhs py_gt),
      (''gte'', with_valid_lhs py_ge),
      (''eq'', \<lambda>prop val. Inr (py_eq prop val)),
      (''available'', \<lambda>prop val. Inr (if truthy val then prop \<noteq> PNone else prop = PNone)),
      (''regex'', with_valid_lhs (regex_op L)),
      (''covers'', with_valid_lhs covers_op),
      (''within'', with_valid_lhs within_op),
      (''in'', \<lambda>prop val. py_in prop val),
      (''contains'', with_valid_lhs (\<lambda>prop val. py_in val prop)),
      (''issubset'', with_valid_lhs issubset_op),
      (''issuperset'', with_valid_lhs issuperset_op)]"

text \<open>\<^verbatim>\<open>ops[name](prop, val)\<close>.\<close>

definition apply_op :: "lib \<Rightarrow> string \<Rightarrow> pyval \<Rightarrow> pyval \<Rightarrow> error + bool" where
  "apply_op L name prop val =
     (case map_of (ops L) name of
        None \<Rightarrow> Inl (KeyError (PStr name))
      | Some op \<Rightarrow> op prop val)"

text \<open>
  \<^verbatim>\<open>predicate(solver, query, val)\<close>, where \<open>query\<close> is the filter key split on the double
  underscore: the last part is the operator when it names one, and the path is looked up
  among the derived properties, then the parameters, then the properties.
\<close>

definition predicate :: "lib \<Rightarrow> solver \<Rightarrow> string list \<Rightarrow> pyval \<Rightarrow> error + bool" where
  "predicate L solver query val =
     (if query = [] then Inl AssertionError
      else
        (let potential_op_name = last query;
             explicit = (map_of (ops L) potential_op_name \<noteq> None);
             op_name = (if explicit then Some potential_op_name else None);
             potential_path = (if explicit then butlast query else query);
             path = join ''.'' potential_path
         in case map_of (derived_properties solver) path of
              Some attr \<Rightarrow>
                apply_op L (case op_name of None \<Rightarrow> ''eq'' | Some n \<Rightarrow> n) attr val
            | None \<Rightarrow>
                if pluck L (parameters solver) path \<noteq> PNone then
                  apply_op L (case op_name of None \<Rightarrow> ''available'' | Some n \<Rightarrow> n)
                    (pluck L (parameters solver) path) val
                else if pluck L (properties solver) path \<noteq> PNone then
                  apply_op L (case op_name of None \<Rightarrow> ''eq'' | Some n \<Rightarrow> n)
                    (pluck L (properties solver) path) val
                else
                  apply_op L (case op_name of None \<Rightarrow> ''eq'' | Some n \<Rightarrow> n) PNone val))"

text \<open>
  The left-hand side of a query is missing from a solver when its path names no derived
  property and nothing in the parameters or the properties: the last branch of
  \<^verbatim>\<open>predicate\<close>.
\<close>

definition lhs_missing :: "lib \<Rightarrow> solver \<Rightarrow> string \<Rightarrow> bool" where
  "lhs_missing L solver path =
     (map_of (derived_properties solver) path = None
      \<and> pluck L (parameters solver) path = PNone
      \<and> pluck L (properties solver) path = PNone)"

text \<open>
  \<^verbatim>\<open>pluck\<close> for a path of keys through nested dicts, the default \<^verbatim>\<open>None\<close> where a key
  is missing; the path is given as its keys.
\<close>

fun pluck_keys :: "pyval \<Rightarrow> string list \<Rightarrow> pyval" where
  "pluck_keys obj [] = obj"
| "pluck_keys obj (k # ks) =
     (case obj of
        PDict kvs \<Rightarrow> (case map_of kvs k of None \<Rightarrow> PNone | Some v \<Rightarrow> pluck_keys v ks)
      | _ \<Rightarrow> PNone)"

text \<open>\<^verbatim>\<open>s.split(sep)\<close> for a separator of one character, and \<open>pluck_keys\<close> on a dotted path.\<close>

fun split_on :: "char \<Rightarrow> string \<Rightarrow> string list" where
  "split_on sep [] = [[]]"
| "split_on sep (c # cs) =
     (if c = sep then [] # split_on sep cs
      else (case split_on sep cs of
              [] \<Rightarrow> [[c]]
            | w # ws \<Rightarrow> (c # w) # ws))"

definition pluck_dict :: "pyval \<Rightarrow> string \<Rightarrow> pyval" where
  "pluck_dict obj path = pluck_keys obj (split_on (CHR ''.'') path)"

text \<open>
  The argument \<^verbatim>\<open>order_by\<close>: \<^verbatim>\<open>None\<close>, a string, a callable giving each solver its
  key (\<open>None\<close> of the option is Python's \<^verbatim>\<open>None\<close>), or anything else. The keys of a
  callable are of one ordered type, as the docstring asks.
\<close>

datatype ('s, 'k) order_by =
    OrderNone
  | OrderStr string
  | OrderCallable "'s \<Rightarrow> 'k option"
  | OrderOther

text \<open>
  The parameter validation: the key function (if any) and the direction, or the
  \<^verbatim>\<open>TypeError\<close>. \<open>pluck_attr solver path\<close> is \<^verbatim>\<open>pluck(solver, path, None)\<close>.
\<close>

definition sort_params ::
  "('s \<Rightarrow> string \<Rightarrow> 'k option) \<Rightarrow> ('s, 'k) order_by
     \<Rightarrow> error + (('s \<Rightarrow> 'k option) option \<times> bool)" where
  "sort_params pluck_attr order_by =
     (case order_by of
        OrderNone \<Rightarrow> Inr (None, False)
      | OrderStr s \<Rightarrow>
          (case s of
             [] \<Rightarrow> Inr (None, False)
           | c # cs \<Rightarrow>
               (let sort_reverse = (c = CHR ''-'');
                    path = (if c = CHR ''-'' then cs else s)
                in if path = [] then Inr (None, sort_reverse)
                   else Inr (Some (\<lambda>solver. pluck_attr solver path), sort_reverse)))
      | OrderCallable f \<Rightarrow> Inr (Some f, False)
      | OrderOther \<Rightarrow> Inl TypeError)"

text \<open>
  The sort and the reversal at the end of \<^verbatim>\<open>get_solvers\<close>. Python's \<^verbatim>\<open>list.sort\<close> is
  stable, as \<open>sort_key\<close> is.
\<close>

definition sort_solvers ::
  "('s \<Rightarrow> 'k::linorder option) option \<Rightarrow> bool \<Rightarrow> 's list \<Rightarrow> 's list" where
  "sort_solvers sort_key_opt sort_reverse solvers =
     (let sorted_solvers =
        (case sort_key_opt of
           None \<Rightarrow> solvers
         | Some key \<Rightarrow>
             (let solvers_with_keys = map (\<lambda>solver. (key solver, solver)) solvers;
                  solvers_with_invalid_keys = filter (\<lambda>ks. fst ks = None) solvers_with_keys;
                  solvers_with_valid_keys = filter (\<lambda>ks. fst ks \<noteq> None) solvers_with_keys
              in map snd (sort_key fst solvers_with_valid_keys @ solvers_with_invalid_keys)))
      in if sort_reverse then rev sorted_solvers else sorted_solvers)"

definition order_solvers ::
  "('s \<Rightarrow> string \<Rightarrow> 'k::linorder option) \<Rightarrow> ('s, 'k) order_by \<Rightarrow> 's list
     \<Rightarrow> error + 's list" where
  "order_solvers pluck_attr order_by solvers =
     (case sort_params pluck_attr order_by of
        Inl e \<Rightarrow> Inl e
      | Inr (sort_key_opt, sort_reverse) \<Rightarrow>
          Inr (sort_solvers sort_key_opt sort_reverse solvers))"

section \<open>Invariants used in the proofs\<close>

text \<open>
  The cancel flags of a future against the number \<open>n\<close> of cancels put on the queue for
  it so far: at most one, none unless \<^verbatim>\<open>_cancel_sent\<close> is set, and \<^verbatim>\<open>_cancel_sent\<close>
  only after a request.
\<close>

definition cancel_inv :: "future \<Rightarrow> nat \<Rightarrow> bool" where
  "cancel_inv f n =
     (n \<le> 1 \<and> (n = 1 \<longrightarrow> cancel_sent f) \<and> (cancel_sent f \<longrightarrow> cancel_requested f))"

text \<open>
  What every frame under construction satisfies: no two keys are equal, no future in it
  was done when it was added, and each is stored under its own id.
\<close>

definition frame_ok :: "frame \<Rightarrow> bool" where
  "frame_ok frame =
     (py_distinct (map fst frame)
      \<and> list_all (\<lambda>kf. \<not> is_done (snd kf) \<and> fst kf = future_id (snd kf)) frame)"

text \<open>
  A frame entry after \<^verbatim>\<open>_poll\<close> scheduled its future, and the put on the poll queue
  that goes with it.
\<close>

definition repolled :: "pyval \<times> future \<Rightarrow> pyval \<times> future" where
  "repolled kf =
     (fst kf, (snd kf)\<lparr>poll_backoff := Some (next_backoff (poll_backoff (snd kf)))\<rparr>)"

definition poll_put :: "env \<Rightarrow> future \<Rightarrow> action" where
  "poll_put E future =
     PollPut (time_time E + real_of_int (next_backoff (poll_backoff future))) (local_id future)"

section \<open>Back-off properties\<close>

lemma poll_backoff_poll:
  "poll_backoff (fst (snd (poll E f))) = Some (next_backoff (poll_backoff f))"
  by (simp add: poll_def Let_def)

lemma next_backoff_range: "1 \<le> next_backoff b \<and> next_backoff b \<le> 60"
  by (simp add: next_backoff_def POLL_BACKOFF_MIN_def POLL_BACKOFF_MAX_def split: option.split)

lemma next_backoff_mono:
  "1 \<le> p \<Longrightarrow> p \<le> 60 \<Longrightarrow> p \<le> next_backoff (Some p)"
  by (simp add: next_backoff_def POLL_BACKOFF_MIN_def POLL_BACKOFF_MAX_def)

lemma polls_snoc: "polls (Es @ [E]) f = fst (snd (poll E (polls Es f)))"
  by (induction Es arbitrary: f) simp_all

lemma polls_backoff_range:
  "\<exists>b. poll_backoff (polls (E # Es) f) = Some b \<and> 1 \<le> b \<and> b \<le> 60"
proof (induction Es rule: rev_induct)
  case Nil
  show ?case using next_backoff_range [of "poll_backoff f"]
    by (simp add: poll_backoff_poll)
next
  case (snoc E' Es)
  have "polls (E # Es @ [E']) f = fst (snd (poll E' (polls (E # Es) f)))"
    using polls_snoc [of "E # Es" E' f] by simp
  then show ?case
    using next_backoff_range [of "poll_backoff (polls (E # Es) f)"]
    by (simp add: poll_backoff_poll)
qed

text \<open>
  C1. \<^verbatim>\<open>_poll\<close> sets the back-off to \<open>POLL_BACKOFF_MIN = 1\<close> when the future has
  none yet, and to \<open>max 1 (min (2 * previous) 60)\<close> otherwise, whatever the clock and
  the polling timeout are. So after any non-empty series of polls the back-off lies in
  \<open>[1, 60]\<close>, one more poll never lowers it, and after three polls of a fresh future
  it is 4.
\<close>

theorem C1_poll_backoff:
  "poll_backoff (fst (snd (poll E (f\<lparr>poll_backoff := None\<rparr>)))) = Some 1
   \<and> poll_backoff (fst (snd (poll E (f\<lparr>poll_backoff := Some p\<rparr>))))
       = Some (max 1 (min (p * 2) 60))
   \<and> (\<exists>b b'. poll_backoff (polls (E1 # Es) f) = Some b
        \<and> poll_backoff (polls ((E1 # Es) @ [E'])  f) = Some b'
        \<and> 1 \<le> b \<and> b \<le> 60 \<and> b \<le> b' \<and> b' \<le> 60)
   \<and> poll_backoff (polls [E1, E2, E3] (f\<lparr>poll_backoff := None\<rparr>)) = Some 4"
proof -
  have a: "poll_backoff (fst (snd (poll E (f\<lparr>poll_backoff := None\<rparr>)))) = Some 1"
    by (simp add: poll_backoff_poll next_backoff_def POLL_BACKOFF_MIN_def)
  have b: "poll_backoff (fst (snd (poll E (f\<lparr>poll_backoff := Some p\<rparr>))))
       = Some (max 1 (min (p * 2) 60))"
    by (simp add: poll_backoff_poll next_backoff_def POLL_BACKOFF_MIN_def POLL_BACKOFF_MAX_def)
  obtain v where v: "poll_backoff (polls (E1 # Es) f) = Some v" "1 \<le> v" "v \<le> 60"
    using polls_backoff_range [of E1 Es f] by blast
  have "polls ((E1 # Es) @ [E']) f = fst (snd (poll E' (polls (E1 # Es) f)))"
    by (rule polls_snoc)
  then have w: "poll_backoff (polls ((E1 # Es) @ [E']) f) = Some (next_backoff (Some v))"
    using v(1) by (simp add: poll_backoff_poll)
  have c: "\<exists>b b'. poll_backoff (polls (E1 # Es) f) = Some b
        \<and> poll_backoff (polls ((E1 # Es) @ [E'])  f) = Some b'
        \<and> 1 \<le> b \<and> b \<le> 60 \<and> b \<le> b' \<and> b' \<le> 60"
    using v w next_backoff_mono [of v] next_backoff_range [of "Some v"] by blast
  have d: "poll_backoff (polls [E1, E2, E3] (f\<lparr>poll_backoff := None\<rparr>)) = Some 4"
    by (simp add: poll_backoff_poll next_backoff_def POLL_BACKOFF_MIN_def POLL_BACKOFF_MAX_def)
  from a b c d show ?thesis by blast
qed

section \<open>The dispatcher on an immediate rejection\<close>

text \<open>
  C7. A status record with both \<^verbatim>\<open>error_code\<close> and \<^verbatim>\<open>error_msg\<close> settles the
  future with \<^verbatim>\<open>SolverFailureError(error_msg)\<close>; nothing else is done to the future.
\<close>

theorem C7_error_record_settles_solver_failure:
  "map_of m ''error_code'' = Some code \<Longrightarrow> map_of m ''error_msg'' = Some msg \<Longrightarrow>
   handle_problem_status E (PDict m) f
     = (f, [SetError (local_id f) (SolverFailureError msg) (SolverFailureError msg)])"
  by (simp add: handle_problem_status_def handle_problem_status_try_def check_message_def
      settle_on_error_def)

theorem C7_witness:
  "handle_problem_status
     \<lparr>polling_timeout = None, time_time = 0, utcnow = 0, parse_datetime = (\<lambda>v. Inl ValueError)\<rparr>
     (PDict [(''error_code'', PNum 400),
             (''error_msg'', PStr (''Missing parameter '' @ [CHR 0x27] @ ''num_reads'' @ [CHR 0x27]))])
     (new_future 7 0)
   = (new_future 7 0,
      [SetError 7
        (SolverFailureError
           (PStr (''Missing parameter '' @ [CHR 0x27] @ ''num_reads'' @ [CHR 0x27])))
        (SolverFailureError
           (PStr (''Missing parameter '' @ [CHR 0x27] @ ''num_reads'' @ [CHR 0x27])))])"
  using C7_error_record_settles_solver_failure
    [of "[(''error_code'', PNum 400),
          (''error_msg'', PStr (''Missing parameter '' @ [CHR 0x27] @ ''num_reads'' @ [CHR 0x27]))]"
      "PNum 400" "PStr (''Missing parameter '' @ [CHR 0x27] @ ''num_reads'' @ [CHR 0x27])"
      "\<lparr>polling_timeout = None, time_time = 0, utcnow = 0, parse_datetime = (\<lambda>v. Inl ValueError)\<rparr>"
      "new_future 7 0"]
  by (simp add: new_future_def)

section \<open>At most one cancel request\<close>

lemma cancel_puts_append: "cancel_puts (xs @ ys) = cancel_puts xs + cancel_puts ys"
  by (simp add: cancel_puts_def)

lemma poll_flags:
  "poll E f = (err, f', acts) \<Longrightarrow>
     cancel_requested f' = cancel_requested f \<and> cancel_sent f' = cancel_sent f
     \<and> cancel_puts acts = 0"
  by (auto simp: poll_def Let_def cancel_puts_def split: if_splits)

lemma update_times_flags:
  "update_times E m f = (err, f') \<Longrightarrow>
     cancel_requested f' = cancel_requested f \<and> cancel_sent f' = cancel_sent f"
  by (auto simp: update_times_def Let_def split: sum.splits)

lemma route_flags:
  "route E m st f = (err, f', acts) \<Longrightarrow>
     cancel_requested f' = cancel_requested f \<and> cancel_sent f' = cancel_sent f
     \<and> cancel_puts acts = 0"
  unfolding route_def
  by (auto simp: cancel_puts_def dest: poll_flags split: if_splits option.splits pyval.splits)

lemma cancel_section_puts:
  "snd (cancel_section mid st f) =
     (if cancel_requested f \<and> \<not> cancel_sent f \<and> st = STATUS_PENDING
      then [CancelPut mid (local_id f)] else [])"
  by (simp add: cancel_section_def)

lemma cancel_section_flags:
  "cancel_requested (fst (cancel_section mid st f)) = cancel_requested f
   \<and> cancel_sent (fst (cancel_section mid st f)) = (cancel_requested f \<or> cancel_sent f)"
  by (simp add: cancel_section_def)

lemma handle_from_lock_cancel:
  assumes "handle_from_lock E m mid st f = (err, f', acts)"
  shows "cancel_puts acts =
           (if cancel_requested f \<and> \<not> cancel_sent f \<and> st = STATUS_PENDING then 1 else 0)
         \<and> cancel_requested f' = cancel_requested f
         \<and> cancel_sent f' = (cancel_requested f \<or> cancel_sent f)"
proof -
  obtain f2 cs where cs: "cancel_section mid st f = (f2, cs)" by (cases "cancel_section mid st f")
  have cs_puts: "cancel_puts cs =
           (if cancel_requested f \<and> \<not> cancel_sent f \<and> st = STATUS_PENDING then 1 else 0)"
    using cancel_section_puts [of mid st f] cs by (simp add: cancel_puts_def)
  have f2: "cancel_requested f2 = cancel_requested f"
      "cancel_sent f2 = (cancel_requested f \<or> cancel_sent f)"
    using cancel_section_flags [of mid st f] cs by simp_all
  obtain e3 f3 where u: "update_times E m f2 = (e3, f3)" by (cases "update_times E m f2")
  have f3: "cancel_requested f3 = cancel_requested f2" "cancel_sent f3 = cancel_sent f2"
    using update_times_flags [OF u] by simp_all
  show ?thesis
  proof (cases e3)
    case (Some e)
    then have "acts = cs" "f' = f3"
      using assms cs u by (simp_all add: handle_from_lock_def)
    then show ?thesis using cs_puts f2 f3 by simp
  next
    case None
    obtain e4 f4 a4 where r: "route E m st f3 = (e4, f4, a4)" by (cases "route E m st f3")
    have "acts = cs @ a4" "f' = f4"
      using assms cs u None r by (simp_all add: handle_from_lock_def)
    then show ?thesis using cs_puts f2 f3 route_flags [OF r] by (simp add: cancel_puts_append)
  qed
qed

lemma settle_on_error_cancel:
  "settle_on_error (err, f, acts) = (f', acts') \<Longrightarrow>
     f' = f \<and> cancel_puts acts' = cancel_puts acts"
  by (auto simp: settle_on_error_def cancel_puts_def split: option.splits)

lemma cancel_flags:
  "cancel f = (f', acts) \<Longrightarrow>
     cancel_requested f' \<and>
     cancel_sent f' = (cancel_sent f \<or> cancel_puts acts = 1) \<and>
     (cancel_requested f \<longrightarrow> cancel_puts acts = 0) \<and> cancel_puts acts \<le> 1"
  by (auto simp: cancel_def cancel_puts_def split: if_splits)

lemma step_inv:
  assumes "step ev f = (f', acts)" "cancel_inv f n"
  shows "cancel_inv f' (n + cancel_puts acts)"
proof (cases ev)
  case UserCancel
  then show ?thesis using assms cancel_flags [of f f' acts]
    by (auto simp: step_def cancel_inv_def)
next
  case (Dispatch E message)
  show ?thesis
  proof (cases "check_message message")
    case (Inl e)
    then show ?thesis using assms Dispatch
      by (auto simp: step_def handle_problem_status_def handle_problem_status_try_def
          settle_on_error_def cancel_puts_def)
  next
    case (Inr r)
    obtain m mid st where r: "r = (m, mid, st)" by (cases r)
    let ?f1 = "f\<lparr>future_id := mid, remote_status := st\<rparr>"
    obtain e2 f2 a2 where h: "handle_from_lock E m mid st ?f1 = (e2, f2, a2)"
      by (cases "handle_from_lock E m mid st ?f1")
    have "settle_on_error (e2, f2, a2) = (f', acts)"
      using assms Dispatch Inr r h
      by (simp add: step_def handle_problem_status_def handle_problem_status_try_def)
    from settle_on_error_cancel [OF this] handle_from_lock_cancel [OF h] assms(2)
    show ?thesis by (auto simp: cancel_inv_def)
  qed
next
  case (DispatchWithCancel E message)
  show ?thesis
  proof (cases "check_message message")
    case (Inl e)
    then show ?thesis using assms DispatchWithCancel
      by (auto simp: step_def settle_on_error_def cancel_puts_def)
  next
    case (Inr r)
    obtain m mid st where r: "r = (m, mid, st)" by (cases r)
    let ?f0 = "f\<lparr>future_id := mid, remote_status := st\<rparr>"
    obtain f1 a1 where c: "cancel ?f0 = (f1, a1)" by (cases "cancel ?f0")
    obtain e2 f2 a2 where h: "handle_from_lock E m mid st f1 = (e2, f2, a2)"
      by (cases "handle_from_lock E m mid st f1")
    have "settle_on_error (e2, f2, a1 @ a2) = (f', acts)"
      using assms DispatchWithCancel Inr r c h by (simp add: step_def)
    from settle_on_error_cancel [OF this] handle_from_lock_cancel [OF h] cancel_flags [OF c]
      assms(2)
    show ?thesis by (auto simp: cancel_inv_def cancel_puts_append)
  qed
qed

lemma run_inv:
  "run evs f = (f', acts) \<Longrightarrow> cancel_inv f n \<Longrightarrow> cancel_inv f' (n + cancel_puts acts)"
proof (induction evs arbitrary: f f' acts n)
  case Nil
  then show ?case by (simp add: cancel_puts_def)
next
  case (Cons ev evs)
  obtain f1 a1 where s: "step ev f = (f1, a1)" by (cases "step ev f")
  obtain f2 a2 where r: "run evs f1 = (f2, a2)" by (cases "run evs f1")
  have eq: "f' = f2" "acts = a1 @ a2" using Cons.prems(1) s r by simp_all
  have "cancel_inv f1 (n + cancel_puts a1)" using step_inv [OF s Cons.prems(2)] .
  from Cons.IH [OF r this] show ?case using eq by (simp add: cancel_puts_append add.assoc)
qed

text \<open>
  C4. Whatever the user and the workers do to a future, in any order (calls of
  \<^verbatim>\<open>cancel()\<close>, dispatched status records, a \<^verbatim>\<open>cancel()\<close> racing with the
  dispatcher), at most one cancel is put on the cancel queue for it. The dispatcher's
  locked block puts one exactly when a cancel was requested, none was sent and the status
  is pending, and it leaves \<^verbatim>\<open>_cancel_sent\<close> set whenever a cancel was requested.
\<close>

theorem C4_at_most_one_cancel:
  "cancel_puts (snd (run evs (new_future n created))) \<le> 1
   \<and> snd (cancel_section message_id status f) =
       (if cancel_requested f \<and> \<not> cancel_sent f \<and> status = STATUS_PENDING
        then [CancelPut message_id (local_id f)] else [])
   \<and> cancel_sent (fst (cancel_section message_id status f))
       = (cancel_requested f \<or> cancel_sent f)"
proof -
  obtain f' acts where r: "run evs (new_future n created) = (f', acts)"
    by (cases "run evs (new_future n created)")
  have "cancel_inv (new_future n created) 0"
    by (simp add: cancel_inv_def new_future_def)
  from run_inv [OF r this] have "cancel_puts acts \<le> 1" by (simp add: cancel_inv_def)
  then show ?thesis using r cancel_section_puts cancel_section_flags by simp
qed

section \<open>The poll frame\<close>

lemma py_distinct_snoc:
  "py_distinct (xs @ [k]) = (py_distinct xs \<and> \<not> list_ex (\<lambda>x. py_eq x k) xs)"
  by (induction xs) (auto simp: list_ex_iff)

lemma add_ok:
  assumes "add fo frame = Inr (alive, frame', dones)" "frame_ok frame"
  shows "frame_ok frame' \<and> length frame' \<le> Suc (length frame)"
  using assms
  by (auto simp: add_def frame_ok_def frame_has_def py_distinct_snoc list_ex_iff
      split: option.splits if_splits)

lemma add_duplicate_or_done:
  "hashable (future_id f) \<Longrightarrow> frame_has (future_id f) frame \<or> is_done f \<Longrightarrow>
     add (Some f) frame = Inr (True, frame, [PollTaskDone])"
  by (auto simp: add_def)

lemma group_ok:
  "group fe frame q acts = Frame fe' frame' q' acts' \<Longrightarrow> frame_ok frame \<Longrightarrow>
   length frame \<le> STATUS_QUERY_SIZE \<Longrightarrow>
   frame_ok frame' \<and> length frame' \<le> STATUS_QUERY_SIZE"
proof (induction fe frame q acts rule: group.induct)
  case (1 fe frame q acts)
  show ?case
  proof (cases "length frame < STATUS_QUERY_SIZE")
    case False
    then show ?thesis using "1.prems" by (simp add: group.simps [of fe frame q acts])
  next
    case lt: True
    show ?thesis
    proof (cases "pq_get q")
      case None
      then show ?thesis using "1.prems" lt by (simp add: group.simps [of fe frame q acts])
    next
      case (Some r)
      obtain task q1 where r: "r = (task, q1)" by (cases r)
      show ?thesis
      proof (cases "fst task - fe \<le> POLL_GROUP_TIMEFRAME")
        case False
        then show ?thesis using "1.prems" lt Some r
          by (simp add: group.simps [of fe frame q acts])
      next
        case near: True
        show ?thesis
        proof (cases "add (snd task) frame")
          case (Inl e)
          then show ?thesis using "1.prems" lt Some r near
            by (simp add: group.simps [of fe frame q acts])
        next
          case (Inr res)
          obtain alive frame1 dones where res: "res = (alive, frame1, dones)" by (cases res)
          have a: "add (snd task) frame = Inr (alive, frame1, dones)" using Inr res by simp
          have ok1: "frame_ok frame1" "length frame1 \<le> STATUS_QUERY_SIZE"
            using add_ok [OF a "1.prems"(2)] lt by auto
          show ?thesis
          proof (cases alive)
            case False
            then show ?thesis using "1.prems" lt Some r near a
              by (simp add: group.simps [of fe frame q acts])
          next
            case True
            have g: "group fe frame1 q1 (acts @ dones) = Frame fe' frame' q' acts'"
              using "1.prems"(1) lt Some r near a True
              by (simp add: group.simps [of fe frame q acts])
            show ?thesis
              using "1.IH" [OF lt Some [unfolded r] _ near a _ _ True g ok1] by simp
          qed
        qed
      qed
    qed
  qed
qed

lemma py_distinct_count: "py_distinct xs \<Longrightarrow> count_list xs (PStr s) \<le> 1"
proof (induction xs)
  case Nil
  then show ?case by simp
next
  case (Cons x xs)
  show ?case
  proof (cases "x = PStr s")
    case True
    then have "PStr s \<notin> set xs" using Cons.prems by (auto simp: list_ex_iff)
    then show ?thesis using True by (simp add: count_list_0_iff)
  next
    case False
    then show ?thesis using Cons by simp
  qed
qed

lemma frame_ok_ids: "frame_ok frame \<Longrightarrow> frame_ids frame = map fst frame"
  by (induction frame) (auto simp: frame_ok_def frame_ids_def)

text \<open>
  C10. A frame the poll worker builds holds at most \<open>STATUS_QUERY_SIZE = 100\<close> futures,
  none of which was done when it was taken from the queue, under keys no two of which
  are equal; the ids the GET asks for are these keys, so they are at most 100 and no id
  occurs twice among them.
\<close>

theorem C10_poll_frame:
  assumes "build_frame q = Frame frame_earliest frame q' acts"
  shows "length frame \<le> 100
         \<and> list_all (\<lambda>kf. \<not> is_done (snd kf)) frame
         \<and> py_distinct (map fst frame)
         \<and> frame_ids frame = map fst frame
         \<and> length (frame_ids frame) \<le> 100
         \<and> py_distinct (frame_ids frame)
         \<and> count_list (frame_ids frame) (PStr s) \<le> 1"
proof -
  obtain task q1 where g: "pq_get q = Some (task, q1)"
    using assms by (cases "pq_get q") (auto simp: build_frame_def)
  obtain frame1 dones where a: "add (snd task) [] = Inr (True, frame1, dones)"
    and gr: "group (fst task) frame1 q1 dones = Frame frame_earliest frame q' acts"
    using assms g
    by (cases "add (snd task) []") (auto simp: build_frame_def split: if_splits)
  have "frame_ok []" by (simp add: frame_ok_def)
  from add_ok [OF a this] have ok1: "frame_ok frame1" "length frame1 \<le> STATUS_QUERY_SIZE"
    by (simp_all add: STATUS_QUERY_SIZE_def)
  from group_ok [OF gr ok1] have ok: "frame_ok frame" "length frame \<le> 100"
    by (simp_all add: STATUS_QUERY_SIZE_def)
  have ids: "frame_ids frame = map fst frame" using frame_ok_ids [OF ok(1)] .
  have d: "py_distinct (map fst frame)" using ok(1) by (simp add: frame_ok_def)
  have nd: "list_all (\<lambda>kf. \<not> is_done (snd kf)) frame"
    using ok(1) by (simp add: frame_ok_def list_all_iff)
  show ?thesis using ok(2) nd d ids py_distinct_count [OF d, of s] by simp
qed

theorem C10_poll_frame_witness:
  "build_frame
       [(1, Some ((new_future 1 0)\<lparr>future_id := PStr ''a''\<rparr>)),
        (2, Some ((new_future 2 0)\<lparr>future_id := PStr ''a''\<rparr>)),
        (5/2, Some ((new_future 3 0)\<lparr>future_id := PStr ''b'', is_done := True\<rparr>)),
        (10, Some ((new_future 4 0)\<lparr>future_id := PStr ''c''\<rparr>))]
     = Frame 1 [(PStr ''a'', (new_future 1 0)\<lparr>future_id := PStr ''a''\<rparr>)]
         [(10, Some ((new_future 4 0)\<lparr>future_id := PStr ''c''\<rparr>))]
         [PollTaskDone, PollTaskDone, PollTaskDone]
   \<and> length [(PStr ''a'', (new_future 1 0)\<lparr>future_id := PStr ''a''\<rparr>)] \<le> 100
   \<and> py_distinct (frame_ids [(PStr ''a'', (new_future 1 0)\<lparr>future_id := PStr ''a''\<rparr>)])
   \<and> count_list (frame_ids [(PStr ''a'', (new_future 1 0)\<lparr>future_id := PStr ''a''\<rparr>)])
        (PStr ''a'') \<le> 1"
proof -
  have w: "build_frame
       [(1, Some ((new_future 1 0)\<lparr>future_id := PStr ''a''\<rparr>)),
        (2, Some ((new_future 2 0)\<lparr>future_id := PStr ''a''\<rparr>)),
        (5/2, Some ((new_future 3 0)\<lparr>future_id := PStr ''b'', is_done := True\<rparr>)),
        (10, Some ((new_future 4 0)\<lparr>future_id := PStr ''c''\<rparr>))]
     = Frame 1 [(PStr ''a'', (new_future 1 0)\<lparr>future_id := PStr ''a''\<rparr>)]
         [(10, Some ((new_future 4 0)\<lparr>future_id := PStr ''c''\<rparr>))]
         [PollTaskDone, PollTaskDone, PollTaskDone]"
    by (simp add: build_frame_def group.simps add_def frame_has_def new_future_def
        STATUS_QUERY_SIZE_def POLL_GROUP_TIMEFRAME_def pq_put_def)
  from C10_poll_frame [OF w, of "''a''"] w show ?thesis by simp
qed

section \<open>A 5xx reply to the poll request\<close>

lemma poll_not_exceeded:
  "\<not> polling_timeout_exceeded E f \<Longrightarrow>
     poll E f = (None, f\<lparr>poll_backoff := Some (next_backoff (poll_backoff f))\<rparr>, [poll_put E f])"
  by (simp add: poll_def Let_def poll_put_def)

lemma poll_exceeded:
  "polling_timeout_exceeded E f \<Longrightarrow>
     poll E f = (Some PollingTimeout, f\<lparr>poll_backoff := Some (next_backoff (poll_backoff f))\<rparr>, [])"
  by (simp add: poll_def Let_def)

lemma route_polling_timeout:
  "status \<in> set ANY_STATUS_ONGOING \<Longrightarrow> polling_timeout_exceeded E f \<Longrightarrow>
   settle_on_error (route E m status f)
     = (f\<lparr>poll_backoff := Some (next_backoff (poll_backoff f))\<rparr>,
        [SetError (local_id f) PollingTimeout PollingTimeout])"
  by (auto simp: route_def poll_exceeded settle_on_error_def ANY_STATUS_ONGOING_def
      STATUS_COMPLETE_def STATUS_IN_PROGRESS_def STATUS_PENDING_def)

lemma poll_all_ok:
  "(\<forall>i<length frame. \<not> polling_timeout_exceeded (E (k + i)) (snd (frame ! i))) \<Longrightarrow>
   poll_all E k frame =
     (None, map repolled frame,
      map (\<lambda>i. poll_put (E (k + i)) (snd (frame ! i))) [0..<length frame])"
proof (induction frame arbitrary: k)
  case Nil
  then show ?case by simp
next
  case (Cons kf rest)
  have h: "\<not> polling_timeout_exceeded (E k) (snd kf)" using Cons.prems by force
  have "\<forall>i<length rest. \<not> polling_timeout_exceeded (E (Suc k + i)) (snd (rest ! i))"
    using Cons.prems by force
  from Cons.IH [OF this]
  have r: "poll_all E (Suc k) rest =
     (None, map repolled rest,
      map (\<lambda>i. poll_put (E (Suc k + i)) (snd (rest ! i))) [0..<length rest])" .
  have m: "map (\<lambda>i. poll_put (E (k + i)) (snd ((kf # rest) ! i))) [0..<length (kf # rest)]
      = poll_put (E k) (snd kf) # map (\<lambda>i. poll_put (E (Suc k + i)) (snd (rest ! i))) [0..<length rest]"
    by (simp add: upt_conv_Cons map_Suc_upt [symmetric] del: upt_Suc)
  show ?case
    using poll_not_exceeded [OF h] r m by (simp add: repolled_def)
qed

text \<open>
  C2 (as amended). When the poll request returns a status code in \<open>[500, 600)\<close> and no
  future of the frame would be older than the polling timeout at its next poll (always
  so when no polling timeout is configured), every future of the frame goes through
  \<^verbatim>\<open>_poll\<close>: its back-off grows by the rule of \<^verbatim>\<open>_poll\<close>, it is put on the poll
  queue again, and nothing settles any future.
\<close>

theorem C2_5xx_repolls:
  assumes "500 \<le> status_code" "status_code < 600"
    and "\<forall>i<length frame. \<not> polling_timeout_exceeded (E i) (snd (frame ! i))"
  shows "poll_request E (HTTPResponse status_code json) frame =
           (map (\<lambda>kf. (fst kf,
                  (snd kf)\<lparr>poll_backoff := Some (next_backoff (poll_backoff (snd kf)))\<rparr>)) frame,
            map (\<lambda>i. PollPut
                   (time_time (E i)
                      + real_of_int (next_backoff (poll_backoff (snd (frame ! i)))))
                   (local_id (snd (frame ! i)))) [0..<length frame]
              @ map (\<lambda>kf. PollTaskDone) frame)
         \<and> \<not> list_ex (settles n) (snd (poll_request E (HTTPResponse status_code json) frame))"
proof -
  have p: "poll_all E 0 frame =
     (None, map repolled frame,
      map (\<lambda>i. poll_put (E (0 + i)) (snd (frame ! i))) [0..<length frame])"
    using poll_all_ok [of frame E 0] assms(3) by simp
  have eq: "poll_request E (HTTPResponse status_code json) frame =
           (map repolled frame,
            map (\<lambda>i. poll_put (E i) (snd (frame ! i))) [0..<length frame]
              @ map (\<lambda>kf. PollTaskDone) frame)"
    using assms(1,2) p by (simp add: poll_request_def poll_request_try_def)
  have "\<not> list_ex (settles n)
          (map (\<lambda>i. poll_put (E i) (snd (frame ! i))) [0..<length frame]
              @ map (\<lambda>kf. PollTaskDone) frame)"
    by (auto simp: list_ex_iff poll_put_def)
  then have ns: "\<not> list_ex (settles n)
     (snd (poll_request E (HTTPResponse status_code json) frame))"
    using eq by simp
  have eq': "poll_request E (HTTPResponse status_code json) frame =
           (map (\<lambda>kf. (fst kf,
                  (snd kf)\<lparr>poll_backoff := Some (next_backoff (poll_backoff (snd kf)))\<rparr>)) frame,
            map (\<lambda>i. PollPut
                   (time_time (E i)
                      + real_of_int (next_backoff (poll_backoff (snd (frame ! i)))))
                   (local_id (snd (frame ! i)))) [0..<length frame]
              @ map (\<lambda>kf. PollTaskDone) frame)"
    using eq unfolding repolled_def [abs_def] poll_put_def .
  show ?thesis using eq' ns by (rule conjI)
qed

theorem C2_5xx_repolls_witness:
  "(500::int) \<le> 503 \<and> (503::int) < 600
   \<and> poll_request
       (\<lambda>k. \<lparr>polling_timeout = None, time_time = 100, utcnow = 100,
             parse_datetime = (\<lambda>v. Inl ValueError)\<rparr>)
       (HTTPResponse 503 (Inl ValueError))
       [(PStr ''a'', (new_future 1 90)\<lparr>future_id := PStr ''a'', poll_backoff := Some 1\<rparr>),
        (PStr ''b'', (new_future 2 50)\<lparr>future_id := PStr ''b'', poll_backoff := Some 16\<rparr>)]
     = ([(PStr ''a'', (new_future 1 90)\<lparr>future_id := PStr ''a'', poll_backoff := Some 2\<rparr>),
         (PStr ''b'', (new_future 2 50)\<lparr>future_id := PStr ''b'', poll_backoff := Some 32\<rparr>)],
        [PollPut 102 1, PollPut 132 2, PollTaskDone, PollTaskDone])"
proof -
  let ?E = "\<lambda>k::nat. \<lparr>polling_timeout = None, time_time = 100, utcnow = 100,
             parse_datetime = (\<lambda>v::pyval. Inl ValueError :: error + real)\<rparr>"
  let ?frame = "[(PStr ''a'', (new_future 1 90)\<lparr>future_id := PStr ''a'', poll_backoff := Some 1\<rparr>),
        (PStr ''b'', (new_future 2 50)\<lparr>future_id := PStr ''b'', poll_backoff := Some 16\<rparr>)]"
  have h: "\<forall>i<length ?frame. \<not> polling_timeout_exceeded (?E i) (snd (?frame ! i))"
    by (simp add: polling_timeout_exceeded_def)
  have a: "(500::int) \<le> 503" and b: "(503::int) < 600" by simp_all
  from C2_5xx_repolls [OF a b h, of "Inl ValueError" 0]
  show ?thesis
    by (simp add: new_future_def next_backoff_def POLL_BACKOFF_MIN_def POLL_BACKOFF_MAX_def
        upt_conv_Cons del: upt_Suc)
qed

text \<open>
  The claim as stated fails when a polling timeout is configured: under a timeout of 5
  seconds, a future created at time 0 whose first poll (back-off 1) gets a 503 reply at
  time 4 would be polled next at time 6; it is not put on the poll queue again, and the
  reply settles it.
\<close>

theorem C2_counterexample:
  "list_ex (settles 0)
     (snd (poll_request
       (\<lambda>k. \<lparr>polling_timeout = Some 5, time_time = 4, utcnow = 4,
             parse_datetime = (\<lambda>v. Inl ValueError)\<rparr>)
       (HTTPResponse 503 (Inl ValueError))
       [(PStr ''123'',
         (new_future 0 0)\<lparr>future_id := PStr ''123'', poll_backoff := Some 1\<rparr>)]))
   \<and> \<not> list_ex (puts_on_poll_queue 0)
     (snd (poll_request
       (\<lambda>k. \<lparr>polling_timeout = Some 5, time_time = 4, utcnow = 4,
             parse_datetime = (\<lambda>v. Inl ValueError)\<rparr>)
       (HTTPResponse 503 (Inl ValueError))
       [(PStr ''123'',
         (new_future 0 0)\<lparr>future_id := PStr ''123'', poll_backoff := Some 1\<rparr>)]))"
  by (simp add: poll_request_def poll_request_try_def poll_def polling_timeout_exceeded_def
      future_age_on_next_poll_def next_backoff_def new_future_def POLL_BACKOFF_MIN_def
      POLL_BACKOFF_MAX_def Let_def)

section \<open>The polling timeout\<close>

text \<open>
  C3. Where the status dispatcher schedules the poll, a future too old at its next poll
  is settled with \<^verbatim>\<open>PollingTimeout\<close> and not put on the queue (\<open>route_polling_timeout\<close>
  above, and the second equation below). Where the 5xx branch of the poll worker
  schedules it, the exception is caught by the worker's \<^verbatim>\<open>except BaseException\<close>
  clause: with a timeout of 60 seconds at time 100, the 503 reply for a frame of a future
  created at 90 (back-off 1) and one created at 50 (back-off 16, so its next poll would
  come at age 82) puts the first on the queue again and then settles both with
  \<^verbatim>\<open>IOError(IOError(PollingTimeout))\<close>.
\<close>

theorem C3_polling_timeout_after_5xx:
  "snd (poll_request
     (\<lambda>k. \<lparr>polling_timeout = Some 60, time_time = 100, utcnow = 100,
           parse_datetime = (\<lambda>v. Inl ValueError)\<rparr>)
     (HTTPResponse 503 (Inl ValueError))
     [(PStr ''a'', (new_future 1 90)\<lparr>future_id := PStr ''a'', poll_backoff := Some 1\<rparr>),
      (PStr ''b'', (new_future 2 50)\<lparr>future_id := PStr ''b'', poll_backoff := Some 16\<rparr>)])
    = [PollPut 102 1,
       SetError 1 (IOError (IOError PollingTimeout)) PollingTimeout,
       SetError 2 (IOError (IOError PollingTimeout)) PollingTimeout,
       PollTaskDone, PollTaskDone]
   \<and> snd (handle_problem_status
     \<lparr>polling_timeout = Some 60, time_time = 100, utcnow = 100,
           parse_datetime = (\<lambda>v. Inl ValueError)\<rparr>
     (PDict [(''status'', PStr ''PENDING''), (''id'', PStr ''b'')])
     ((new_future 2 50)\<lparr>future_id := PStr ''b'', poll_backoff := Some 16\<rparr>))
   = [SetError 2 PollingTimeout PollingTimeout]"
  by (simp add: poll_request_def poll_request_try_def
      handle_problem_status_def handle_problem_status_try_def check_message_def
      handle_from_lock_def cancel_section_def update_times_def set_time_def route_def
      settle_on_error_def STATUS_COMPLETE_def ANY_STATUS_ONGOING_def STATUS_PENDING_def
      STATUS_IN_PROGRESS_def poll_def polling_timeout_exceeded_def
      future_age_on_next_poll_def next_backoff_def new_future_def POLL_BACKOFF_MIN_def
      POLL_BACKOFF_MAX_def Let_def)

section \<open>The submission batch\<close>

lemma drain_take_drop:
  "length ready \<le> SUBMIT_BATCH_SIZE \<Longrightarrow>
   drain ready q = (ready @ take (SUBMIT_BATCH_SIZE - length ready) q,
                    drop (SUBMIT_BATCH_SIZE - length ready) q)"
proof (induction q arbitrary: ready)
  case Nil
  then show ?case by simp
next
  case (Cons x q)
  show ?case
  proof (cases "length ready < SUBMIT_BATCH_SIZE")
    case True
    then have "length (ready @ [x]) \<le> SUBMIT_BATCH_SIZE" by simp
    from Cons.IH [OF this] True show ?thesis
      by (simp add: Suc_diff_Suc take_Cons' drop_Cons')
  next
    case False
    then have "length ready = SUBMIT_BATCH_SIZE" using Cons.prems by simp
    then show ?thesis by simp
  qed
qed

text \<open>
  C6 (as amended). After the blocking get of the first item the worker takes up to
  \<open>SUBMIT_BATCH_SIZE - 1 = 19\<close> further items without blocking, so a batch holds
  \<open>min 20 (1 + the items waiting)\<close> problems: at most \<open>SUBMIT_BATCH_SIZE = 20\<close>.
\<close>

theorem C6_batch_size:
  "take_batch (Some m # rest) = Some (Inr (Some m # take 19 rest, drop 19 rest))
   \<and> length (Some m # take 19 rest) = min SUBMIT_BATCH_SIZE (1 + length rest)
   \<and> length (Some m # take 19 rest) \<le> 20"
proof -
  have "drain [Some m] rest = ([Some m] @ take (SUBMIT_BATCH_SIZE - length [Some m]) rest,
                    drop (SUBMIT_BATCH_SIZE - length [Some m]) rest)"
    by (rule drain_take_drop) (simp add: SUBMIT_BATCH_SIZE_def)
  then show ?thesis by (auto simp: take_batch_def SUBMIT_BATCH_SIZE_def)
qed

text \<open>With 25 problems waiting the batch holds 20 of them, not 21, and 5 stay queued.\<close>

theorem C6_counterexample:
  "take_batch (replicate 25 (Some \<lparr>body = ''{}'', sub_future = new_future 0 0\<rparr>))
     = Some (Inr (replicate 20 (Some \<lparr>body = ''{}'', sub_future = new_future 0 0\<rparr>),
                  replicate 5 (Some \<lparr>body = ''{}'', sub_future = new_future 0 0\<rparr>)))
   \<and> length (replicate 20 (Some \<lparr>body = ''{}'', sub_future = new_future 0 0\<rparr>)) \<noteq> 21"
  by (simp add: take_batch_def SUBMIT_BATCH_SIZE_def eval_nat_numeral)

lemma map_filter_Some: "List.map_filter id (map Some xs) = xs"
  by (induction xs) (simp_all add: List.map_filter_simps)

text \<open>
  C5 (as amended). When the POST times out, every member of the batch is failed through
  \<^verbatim>\<open>_set_error\<close> with \<^verbatim>\<open>IOError(RequestTimeout)\<close>, the I/O wrapper every failure
  other than the authentication error gets, around the request-timeout error; the
  \<^verbatim>\<open>exc_info\<close> passed along is that of the request-timeout error itself. Each member is
  marked done on the queue.
\<close>

theorem C5_timeout_is_wrapped:
  "submit_batch E HTTPTimeout (map Some batch) =
     Inr (batch,
          concat (map (\<lambda>mess.
            [SetError (local_id (sub_future mess)) (IOError RequestTimeout) RequestTimeout,
             SubmissionTaskDone]) batch))"
  by (simp add: submit_batch_def request_body_def map_filter_Some list_ex_iff image_iff)

text \<open>The error a batch of one problem is failed with is not the request-timeout error.\<close>

theorem C5_counterexample:
  "submit_batch (\<lambda>k. \<lparr>polling_timeout = None, time_time = 0, utcnow = 0,
                      parse_datetime = (\<lambda>v. Inl ValueError)\<rparr>)
     HTTPTimeout [Some \<lparr>body = ''{}'', sub_future = new_future 0 0\<rparr>]
   = Inr ([\<lparr>body = ''{}'', sub_future = new_future 0 0\<rparr>],
          [SetError 0 (IOError RequestTimeout) RequestTimeout, SubmissionTaskDone])
   \<and> SetError 0 (IOError RequestTimeout) RequestTimeout
       \<noteq> SetError 0 RequestTimeout RequestTimeout"
  by (simp add: submit_batch_def request_body_def List.map_filter_simps new_future_def)

section \<open>Ordering the solvers\<close>

lemma sort_solvers_asc:
  "sort_solvers (Some key) False xs =
     map snd (sort_key fst (filter (\<lambda>ks. fst ks \<noteq> None) (map (\<lambda>s. (key s, s)) xs)))
       @ filter (\<lambda>s. key s = None) xs"
  by (simp add: sort_solvers_def Let_def filter_map o_def)

lemma filter_map_snd_keyed:
  "\<forall>p\<in>set L. fst p = key (snd p) \<Longrightarrow>
     filter (\<lambda>s. key s = k) (map snd L) = map snd (filter (\<lambda>p. fst p = k) L)"
  by (induction L) auto

lemma valid_part_stable:
  "filter (\<lambda>s. key s = k)
     (map snd (sort_key fst (filter (\<lambda>ks. fst ks \<noteq> None) (map (\<lambda>s. (key s, s)) xs))))
   = (if k = None then [] else filter (\<lambda>s. key s = k) xs)"
proof -
  let ?V = "filter (\<lambda>ks. fst ks \<noteq> None) (map (\<lambda>s. (key s, s)) xs)"
  have keyed: "\<forall>p\<in>set (sort_key fst ?V). fst p = key (snd p)" by auto
  have "filter (\<lambda>s. key s = k) (map snd (sort_key fst ?V))
        = map snd (filter (\<lambda>p. fst p = k) (sort_key fst ?V))"
    using filter_map_snd_keyed [OF keyed] .
  also have "\<dots> = map snd (filter (\<lambda>p. fst p = k) ?V)"
    by (simp add: sort_key_stable)
  also have "\<dots> = (if k = None then [] else filter (\<lambda>s. key s = k) xs)"
    by (induction xs) auto
  finally show ?thesis .
qed

lemma keyed_map:
  "\<forall>p\<in>set L. fst p = key (snd p) \<Longrightarrow> map key (map snd L) = map fst L"
  by (induction L) auto

lemma valid_part_sorted:
  "sorted (map key
     (map snd (sort_key fst (filter (\<lambda>ks. fst ks \<noteq> None) (map (\<lambda>s. (key s, s)) xs)))))"
proof -
  let ?V = "filter (\<lambda>ks. fst ks \<noteq> None) (map (\<lambda>s. (key s, s)) xs)"
  have keyed: "\<forall>p\<in>set (sort_key fst ?V). fst p = key (snd p)" by auto
  have eq: "map key (map snd (sort_key fst ?V)) = map fst (sort_key fst ?V)"
    using keyed_map [OF keyed] .
  have "sorted (map fst (sort_key fst ?V))" by (rule sorted_sort_key)
  then show ?thesis unfolding eq .
qed

lemma valid_part_valid:
  "s \<in> set (map snd (sort_key fst (filter (\<lambda>ks. fst ks \<noteq> None) (map (\<lambda>s. (key s, s)) xs))))
     \<Longrightarrow> key s \<noteq> None"
  by auto

text \<open>
  C8 (as amended). In ascending order (a path without \<^verbatim>\<open>-\<close>, or a callable) the sort
  is stable: the solvers of any one key, \<^verbatim>\<open>None\<close> included, keep their order; the
  solvers with a key come first, sorted, and those whose key is \<^verbatim>\<open>None\<close> follow in
  their original order. In descending order the result is the reverse of the ascending
  one, so the solvers without a key come first and equal keys come in reverse order.
  Without a key the list is returned as it is, or reversed.
\<close>

theorem C8_sort:
  "filter (\<lambda>s. key s = k) (sort_solvers (Some key) False xs) = filter (\<lambda>s. key s = k) xs
   \<and> sort_solvers (Some key) False xs =
       filter (\<lambda>s. key s \<noteq> None) (sort_solvers (Some key) False xs)
         @ filter (\<lambda>s. key s = None) xs
   \<and> sorted (map key (filter (\<lambda>s. key s \<noteq> None) (sort_solvers (Some key) False xs)))
   \<and> sort_solvers (Some key) True xs = rev (sort_solvers (Some key) False xs)
   \<and> sort_solvers None False xs = xs
   \<and> sort_solvers None True xs = rev xs
   \<and> order_solvers pluck_attr (OrderCallable key) xs = Inr (sort_solvers (Some key) False xs)
   \<and> order_solvers pluck_attr (OrderStr (c # cs)) xs =
       Inr (sort_solvers
              (if c = CHR ''-'' then (if cs = [] then None else Some (\<lambda>s. pluck_attr s cs))
               else Some (\<lambda>s. pluck_attr s (c # cs)))
              (c = CHR ''-'') xs)"
proof -
  let ?A = "map snd (sort_key fst (filter (\<lambda>ks. fst ks \<noteq> None) (map (\<lambda>s. (key s, s)) xs)))"
  let ?B = "filter (\<lambda>s. key s = None) xs"
  have R: "sort_solvers (Some key) False xs = ?A @ ?B" by (rule sort_solvers_asc)
  have A_valid: "filter (\<lambda>s. key s \<noteq> None) ?A = ?A"
    unfolding filter_id_conv using valid_part_valid [of _ key xs] by blast
  have B_invalid: "filter (\<lambda>s. key s \<noteq> None) ?B = []"
    by (auto simp: filter_empty_conv)
  have valid_R: "filter (\<lambda>s. key s \<noteq> None) (sort_solvers (Some key) False xs) = ?A"
    using R A_valid B_invalid by simp
  have stable: "filter (\<lambda>s. key s = k) (sort_solvers (Some key) False xs)
                  = filter (\<lambda>s. key s = k) xs"
  proof (cases k)
    case None
    then show ?thesis using R valid_part_stable [of key k xs] by simp
  next
    case (Some v)
    then have "filter (\<lambda>s. key s = k) ?B = []" by (auto simp: filter_empty_conv)
    then show ?thesis using R valid_part_stable [of key k xs] Some by simp
  qed
  have split: "sort_solvers (Some key) False xs =
       filter (\<lambda>s. key s \<noteq> None) (sort_solvers (Some key) False xs) @ ?B"
    using R valid_R by simp
  have srt: "sorted (map key (filter (\<lambda>s. key s \<noteq> None) (sort_solvers (Some key) False xs)))"
    using valid_R valid_part_sorted [of key xs] by simp
  have rv: "sort_solvers (Some key) True xs = rev (sort_solvers (Some key) False xs)"
    by (simp add: sort_solvers_def Let_def)
  have n: "sort_solvers None False xs = xs" "sort_solvers None True xs = rev xs"
    by (simp_all add: sort_solvers_def)
  have oc: "order_solvers pluck_attr (OrderCallable key) xs
              = Inr (sort_solvers (Some key) False xs)"
    by (simp add: order_solvers_def sort_params_def)
  have os: "order_solvers pluck_attr (OrderStr (c # cs)) xs =
       Inr (sort_solvers
              (if c = CHR ''-'' then (if cs = [] then None else Some (\<lambda>s. pluck_attr s cs))
               else Some (\<lambda>s. pluck_attr s (c # cs)))
              (c = CHR ''-'') xs)"
    by (simp add: order_solvers_def sort_params_def Let_def)
  show ?thesis
    by (intro conjI)
       (fact stable, fact split, fact srt, fact rv, fact n(1), fact n(2), fact oc, fact os)
qed

text \<open>
  In descending order the solver without a key is first and the two solvers of equal
  key have changed places.
\<close>

theorem C8_counterexample:
  "order_solvers
     (\<lambda>s path. if path = ''avg_load'' then map_of [(''a'', 1::nat), (''b'', 1)] s else None)
     (OrderStr ''-avg_load'') [''c'', ''a'', ''b'']
   = Inr [''c'', ''b'', ''a'']"
  by (simp add: order_solvers_def sort_params_def sort_solvers_def Let_def)

section \<open>Filters on a missing left-hand side\<close>

lemma apply_op_simps:
  "apply_op L ''lt'' = with_valid_lhs py_lt"
  "apply_op L ''lte'' = with_valid_lhs py_le"
  "apply_op L ''gt'' = with_valid_lhs py_gt"
  "apply_op L ''gte'' = with_valid_lhs py_ge"
  "apply_op L ''eq'' = (\<lambda>prop val. Inr (py_eq prop val))"
  "apply_op L ''available'' =
     (\<lambda>prop val. Inr (if truthy val then prop \<noteq> PNone else prop = PNone))"
  "apply_op L ''regex'' = with_valid_lhs (regex_op L)"
  "apply_op L ''covers'' = with_valid_lhs covers_op"
  "apply_op L ''within'' = with_valid_lhs within_op"
  "apply_op L ''in'' = (\<lambda>prop val. py_in prop val)"
  "apply_op L ''contains'' = with_valid_lhs (\<lambda>prop val. py_in val prop)"
  "apply_op L ''issubset'' = with_valid_lhs issubset_op"
  "apply_op L ''issuperset'' = with_valid_lhs issuperset_op"
  by (simp_all add: apply_op_def ops_def fun_eq_iff)

lemma ops_has:
  "map_of (ops L) ''eq'' \<noteq> None"
  "map_of (ops L) ''available'' \<noteq> None"
  "map_of (ops L) ''in'' \<noteq> None"
  by (simp_all add: ops_def)

lemma predicate_missing_explicit:
  assumes "lhs_missing L solver (join ''.'' path)" "map_of (ops L) name \<noteq> None"
  shows "predicate L solver (path @ [name]) val = apply_op L name PNone val"
  using assms by (simp add: predicate_def lhs_missing_def Let_def)

lemma predicate_missing_implied:
  assumes "lhs_missing L solver (join ''.'' query)" "query \<noteq> []"
    "map_of (ops L) (last query) = None"
  shows "predicate L solver query val = apply_op L ''eq'' PNone val"
  using assms by (simp add: predicate_def lhs_missing_def Let_def)

text \<open>
  C9 (as amended). When the path of a filter names nothing in the solver, the operator is
  applied to \<^verbatim>\<open>None\<close>, and the filter is false for \<^verbatim>\<open>lt\<close>, \<^verbatim>\<open>lte\<close>,
  \<^verbatim>\<open>gt\<close>, \<^verbatim>\<open>gte\<close>, \<^verbatim>\<open>regex\<close>, \<^verbatim>\<open>covers\<close>, \<^verbatim>\<open>within\<close>,
  \<^verbatim>\<open>contains\<close>, \<^verbatim>\<open>issubset\<close> and \<^verbatim>\<open>issuperset\<close>. The exceptions are
  \<^verbatim>\<open>eq\<close> (also when implied), true exactly against \<^verbatim>\<open>None\<close>; \<^verbatim>\<open>available\<close>,
  true exactly for a false argument; and \<^verbatim>\<open>in\<close>, which tests whether \<^verbatim>\<open>None\<close> is
  in the argument and so is true for a list that holds \<^verbatim>\<open>None\<close>.
\<close>

theorem C9_missing_lhs:
  assumes "lhs_missing L solver (join ''.'' path)"
  shows "(name \<in> {''lt'', ''lte'', ''gt'', ''gte'', ''regex'', ''covers'', ''within'',
                   ''contains'', ''issubset'', ''issuperset''}
            \<longrightarrow> predicate L solver (path @ [name]) val = Inr False)
         \<and> predicate L solver (path @ [''eq'']) val = Inr (val = PNone)
         \<and> predicate L solver (path @ [''available'']) val = Inr (\<not> truthy val)
         \<and> predicate L solver (path @ [''in'']) val = py_in PNone val
         \<and> predicate L solver (path @ [''in'']) (PList items) = Inr (PNone \<in> set items)
         \<and> (path \<noteq> [] \<and> map_of (ops L) (last path) = None
            \<longrightarrow> predicate L solver path val = Inr (val = PNone))"
proof -
  have e: "\<And>n. map_of (ops L) n \<noteq> None \<Longrightarrow>
             predicate L solver (path @ [n]) val = apply_op L n PNone val"
    using predicate_missing_explicit [OF assms] by blast
  have wrapped: "name \<in> {''lt'', ''lte'', ''gt'', ''gte'', ''regex'', ''covers'', ''within'',
                   ''contains'', ''issubset'', ''issuperset''}
            \<longrightarrow> predicate L solver (path @ [name]) val = Inr False"
  proof
    assume n: "name \<in> {''lt'', ''lte'', ''gt'', ''gte'', ''regex'', ''covers'', ''within'',
                   ''contains'', ''issubset'', ''issuperset''}"
    then have "map_of (ops L) name \<noteq> None" by (auto simp: ops_def)
    from e [OF this] n show "predicate L solver (path @ [name]) val = Inr False"
      by (auto simp: apply_op_simps with_valid_lhs_def)
  qed
  have eq: "predicate L solver (path @ [''eq'']) val = Inr (val = PNone)"
    using e [OF ops_has(1)] by (simp add: apply_op_simps)
  have av: "predicate L solver (path @ [''available'']) val = Inr (\<not> truthy val)"
    using e [OF ops_has(2)] by (simp add: apply_op_simps)
  have inn: "predicate L solver (path @ [''in'']) val = py_in PNone val" for val
    using predicate_missing_explicit [OF assms ops_has(3), of val]
    by (simp add: apply_op_simps)
  have inl: "predicate L solver (path @ [''in'']) (PList items) = Inr (PNone \<in> set items)"
    using inn [of "PList items"] by (auto simp: list_ex_iff)
  have imp: "path \<noteq> [] \<and> map_of (ops L) (last path) = None
            \<longrightarrow> predicate L solver path val = Inr (val = PNone)"
    using predicate_missing_implied [OF assms] by (simp add: apply_op_simps)
  show ?thesis
    by (intro conjI) (fact wrapped, fact eq, fact av, fact inn, fact inl, fact imp)
qed

theorem C9_missing_lhs_witness:
  "lhs_missing \<lparr>re_match = (\<lambda>val prop. Inr (val = PStr prop)), pluck = pluck_dict\<rparr>
     \<lparr>derived_properties = [(''name'', PStr ''solver1''), (''online'', PBool True)],
      parameters = PDict [(''num_reads'', PStr ''Number of samples'')],
      properties = PDict [(''num_qubits'', PNum 3)]\<rparr>
     (join ''.'' [''vfyc''])
   \<and> predicate \<lparr>re_match = (\<lambda>val prop. Inr (val = PStr prop)), pluck = pluck_dict\<rparr>
     \<lparr>derived_properties = [(''name'', PStr ''solver1''), (''online'', PBool True)],
      parameters = PDict [(''num_reads'', PStr ''Number of samples'')],
      properties = PDict [(''num_qubits'', PNum 3)]\<rparr>
     ([''vfyc''] @ [''gte'']) (PNum 3) = Inr False
   \<and> predicate \<lparr>re_match = (\<lambda>val prop. Inr (val = PStr prop)), pluck = pluck_dict\<rparr>
     \<lparr>derived_properties = [(''name'', PStr ''solver1''), (''online'', PBool True)],
      parameters = PDict [(''num_reads'', PStr ''Number of samples'')],
      properties = PDict [(''num_qubits'', PNum 3)]\<rparr>
     [''vfyc''] (PNum 3) = Inr False"
proof -
  let ?L = "\<lparr>re_match = (\<lambda>val prop. Inr (val = PStr prop)), pluck = pluck_dict\<rparr>"
  let ?S = "\<lparr>derived_properties = [(''name'', PStr ''solver1''), (''online'', PBool True)],
      parameters = PDict [(''num_reads'', PStr ''Number of samples'')],
      properties = PDict [(''num_qubits'', PNum 3)]\<rparr>"
  have h: "lhs_missing ?L ?S (join ''.'' [''vfyc''])"
    by (simp add: lhs_missing_def pluck_dict_def)
  have n: "map_of (ops ?L) (last [''vfyc'']) = None" by (simp add: ops_def)
  from C9_missing_lhs [OF h, of "''gte''" "PNum 3" "[]"] h n show ?thesis by simp
qed

text \<open>
  The filter \<^verbatim>\<open>vfyc__in=[False, None]\<close> of the docstring holds of a solver that has no
  \<^verbatim>\<open>vfyc\<close>.
\<close>

theorem C9_counterexample:
  "predicate \<lparr>re_match = (\<lambda>val prop. Inr (val = PStr prop)), pluck = pluck_dict\<rparr>
     \<lparr>derived_properties = [(''name'', PStr ''solver1''), (''online'', PBool True)],
      parameters = PDict [(''num_reads'', PStr ''Number of samples'')],
      properties = PDict [(''num_qubits'', PNum 3)]\<rparr>
     [''vfyc'', ''in''] (PList [PBool False, PNone])
   = Inr True"
  by (simp add: predicate_def Let_def ops_def apply_op_def pluck_dict_def)

end
